theory Spec2Isabelle
  imports Complex_Main "HOL-Library.Word" "HOL-Library.Product_Lexorder"
begin

unbundle bit_operations_syntax

chapter \<open>LLGL: texture extent arithmetic, the UTF-8 string container, display modes\<close>

text \<open>
  A shallow embedding of the pure parts of \<^verbatim>\<open>sources/Renderer/TextureFlags.cpp\<close>,
  \<^verbatim>\<open>sources/Core/UTF8String.cpp\<close> with \<^verbatim>\<open>include/LLGL/Container/UTF8String.h\<close>,
  \<^verbatim>\<open>sources/Platform/Linux/LinuxDisplay.cpp\<close>, \<^verbatim>\<open>sources/Platform/Android/AndroidDisplay.cpp\<close>
  and \<^verbatim>\<open>sources/Renderer/OpenGL/Platform/Android/AndroidGLContext.cpp\<close>.
  \<^verbatim>\<open>std::uint32_t\<close> is \<open>32 word\<close>, \<^verbatim>\<open>char\<close> is \<open>8 word\<close>, \<^verbatim>\<open>int\<close> values that stay
  far from their bounds are \<open>int\<close>, \<^verbatim>\<open>std::size_t\<close> is \<open>nat\<close> with the wrap-around at
  \<open>2 ^ 64\<close> written out where it can happen. A trap (\<^verbatim>\<open>LLGL_TRAP\<close>) and undefined
  behaviour are values of an error type.
\<close>

type_synonym u32 = "32 word"
type_synonym byte = "8 word"

section \<open>TextureFlags.cpp\<close>

datatype TextureType =
    Texture1D | Texture2D | Texture3D | TextureCube
  | Texture1DArray | Texture2DArray | TextureCubeArray
  | Texture2DMS | Texture2DMSArray

text \<open>\<^verbatim>\<open>Extent3D\<close> has the fields \<^verbatim>\<open>x\<close>, \<^verbatim>\<open>y\<close>, \<^verbatim>\<open>z\<close>; here \<open>ext_x\<close>, \<open>ext_y\<close>, \<open>ext_z\<close>.
  \<^verbatim>\<open>Extent3D{}\<close> is the zero extent.\<close>

record Extent3D =
  ext_x :: u32
  ext_y :: u32
  ext_z :: u32

definition Extent3D_zero :: Extent3D where
  "Extent3D_zero = \<lparr>ext_x = 0, ext_y = 0, ext_z = 0\<rparr>"

text \<open>The fields of \<^verbatim>\<open>TextureDescriptor\<close> that TextureFlags.cpp reads.\<close>

record TextureDescriptor =
  desc_type :: TextureType
  desc_extent :: Extent3D
  arrayLayers :: u32
  mipLevels :: u32

text \<open>
  What TextureFlags.cpp takes from elsewhere:
  \<^item> \<open>std_log2\<close> is \<^verbatim>\<open>std::log2\<close> of \<^verbatim>\<open><cmath>\<close> at a positive integer argument
    (converted to \<^verbatim>\<open>double\<close> without loss, as every 32-bit value is); its result, a finite
    \<^verbatim>\<open>double\<close>, is read as the real number it denotes;
  \<^item> \<open>default_height\<close> and \<open>default_depth\<close> are the default arguments of the declaration
    of \<^verbatim>\<open>NumMipLevels(width, height, depth)\<close> in TextureFlags.h, which the one- and
    two-argument calls of \<^verbatim>\<open>NumMipLevels(type, extent)\<close> rely on.
\<close>

record externals =
  std_log2 :: "nat \<Rightarrow> real"
  default_height :: u32
  default_depth :: u32

text \<open>
  \<^verbatim>\<open>static_cast<std::uint32_t>(d)\<close> for a \<^verbatim>\<open>double\<close>: truncation towards zero, defined
  only when the truncated value is a \<^verbatim>\<open>std::uint32_t\<close>; otherwise the behaviour is
  undefined (\<open>None\<close>).
\<close>

definition double_to_u32 :: "real \<Rightarrow> u32 option" where
  "double_to_u32 r =
     (if - 1 < r \<and> r < 2 ^ 32
      then Some (word_of_int (if r < 0 then \<lceil>r\<rceil> else \<lfloor>r\<rfloor>))
      else None)"

text \<open>
  \<^verbatim>\<open>NumMipLevels(width, height, depth)\<close>. \<^verbatim>\<open>std::log2(0)\<close> is minus infinity, whose
  conversion to \<^verbatim>\<open>std::uint32_t\<close> is undefined: \<open>None\<close>.
\<close>

definition NumMipLevels :: "externals \<Rightarrow> u32 \<Rightarrow> u32 \<Rightarrow> u32 \<Rightarrow> u32 option" where
  "NumMipLevels E w h d =
     (let maxSize = max w (max h d) in
      case (if maxSize = 0 then None else double_to_u32 (std_log2 E (unat maxSize))) of
        None \<Rightarrow> None
      | Some log2Size \<Rightarrow> Some (1 + log2Size))"

text \<open>\<^verbatim>\<open>NumMipLevels(const TextureType type, const Extent3D& extent)\<close>.\<close>

fun NumMipLevels_type :: "externals \<Rightarrow> TextureType \<Rightarrow> Extent3D \<Rightarrow> u32 option" where
  "NumMipLevels_type E Texture1D e = NumMipLevels E (ext_x e) (default_height E) (default_depth E)"
| "NumMipLevels_type E Texture2D e = NumMipLevels E (ext_x e) (ext_y e) (default_depth E)"
| "NumMipLevels_type E Texture3D e = NumMipLevels E (ext_x e) (ext_y e) (ext_z e)"
| "NumMipLevels_type E TextureCube e = NumMipLevels E (ext_x e) (ext_y e) (default_depth E)"
| "NumMipLevels_type E Texture1DArray e = NumMipLevels E (ext_x e) (default_height E) (default_depth E)"
| "NumMipLevels_type E Texture2DArray e = NumMipLevels E (ext_x e) (ext_y e) (default_depth E)"
| "NumMipLevels_type E TextureCubeArray e = NumMipLevels E (ext_x e) (ext_y e) (default_depth E)"
| "NumMipLevels_type E Texture2DMS e = Some 1"
| "NumMipLevels_type E Texture2DMSArray e = Some 1"

text \<open>\<^verbatim>\<open>NumMipLevels(const TextureDescriptor& textureDesc)\<close>.\<close>

definition NumMipLevels_desc :: "externals \<Rightarrow> TextureDescriptor \<Rightarrow> u32 option" where
  "NumMipLevels_desc E textureDesc =
     (if mipLevels textureDesc = 0
      then NumMipLevels_type E (desc_type textureDesc) (desc_extent textureDesc)
      else Some (mipLevels textureDesc))"

text \<open>
  \<^verbatim>\<open>MipExtent\<close>: \<^verbatim>\<open>std::max(1u, extent >> mipLevel)\<close>. Its callers pass a level below
  \<^verbatim>\<open>NumMipLevels\<close>, which is at most 32 for a \<^verbatim>\<open>std::log2\<close> that is exact enough
  (\<open>NumMipLevels_le_32\<close> below), so the shift count is below the width.
\<close>

definition MipExtent :: "u32 \<Rightarrow> u32 \<Rightarrow> u32" where
  "MipExtent extent mipLevel = max 1 (drop_bit (unat mipLevel) extent)"

text \<open>\<^verbatim>\<open>GetMipExtent(const TextureType type, const Extent3D& extent, std::uint32_t mipLevel)\<close>.\<close>

fun GetMipExtent_switch :: "TextureType \<Rightarrow> Extent3D \<Rightarrow> u32 \<Rightarrow> Extent3D" where
  "GetMipExtent_switch Texture1D e l =
     \<lparr>ext_x = MipExtent (ext_x e) l, ext_y = 1, ext_z = 1\<rparr>"
| "GetMipExtent_switch Texture2D e l =
     \<lparr>ext_x = MipExtent (ext_x e) l, ext_y = MipExtent (ext_y e) l, ext_z = 1\<rparr>"
| "GetMipExtent_switch Texture3D e l =
     \<lparr>ext_x = MipExtent (ext_x e) l, ext_y = MipExtent (ext_y e) l, ext_z = MipExtent (ext_z e) l\<rparr>"
| "GetMipExtent_switch TextureCube e l =
     \<lparr>ext_x = MipExtent (ext_x e) l, ext_y = MipExtent (ext_y e) l, ext_z = ext_z e\<rparr>"
| "GetMipExtent_switch Texture1DArray e l =
     \<lparr>ext_x = MipExtent (ext_x e) l, ext_y = ext_y e, ext_z = 1\<rparr>"
| "GetMipExtent_switch Texture2DArray e l =
     \<lparr>ext_x = MipExtent (ext_x e) l, ext_y = MipExtent (ext_y e) l, ext_z = ext_z e\<rparr>"
| "GetMipExtent_switch TextureCubeArray e l =
     \<lparr>ext_x = MipExtent (ext_x e) l, ext_y = MipExtent (ext_y e) l, ext_z = ext_z e\<rparr>"
| "GetMipExtent_switch Texture2DMS e l =
     \<lparr>ext_x = ext_x e, ext_y = ext_y e, ext_z = 1\<rparr>"
| "GetMipExtent_switch Texture2DMSArray e l =
     \<lparr>ext_x = ext_x e, ext_y = ext_y e, ext_z = ext_z e\<rparr>"

definition GetMipExtent :: "externals \<Rightarrow> TextureType \<Rightarrow> Extent3D \<Rightarrow> u32 \<Rightarrow> Extent3D option" where
  "GetMipExtent E t extent mipLevel =
     (case NumMipLevels_type E t extent of
        None \<Rightarrow> None
      | Some n \<Rightarrow>
          if mipLevel < n then Some (GetMipExtent_switch t extent mipLevel)
          else Some Extent3D_zero)"

text \<open>
  Modelled from the spec: \<^verbatim>\<open>GetAlignedSize\<close> of \<^verbatim>\<open>sources/Core/CoreUtils.h\<close> is not among
  the sources. The specification says of its one use here that array-layer counts for
  cube-array types are rounded up to multiples of 6: the least multiple of the alignment that
  is not below the size, as a \<^verbatim>\<open>std::uint32_t\<close>.
\<close>

definition GetAlignedSize :: "u32 \<Rightarrow> u32 \<Rightarrow> u32" where
  "GetAlignedSize sz alignment =
     of_nat (((unat sz + unat alignment - 1) div unat alignment) * unat alignment)"

text \<open>\<^verbatim>\<open>GetMipExtent(const TextureDescriptor& textureDesc, std::uint32_t mipLevel)\<close>.\<close>

fun GetMipExtent_desc_switch :: "TextureType \<Rightarrow> Extent3D \<Rightarrow> u32 \<Rightarrow> u32 \<Rightarrow> Extent3D" where
  "GetMipExtent_desc_switch Texture1D e layers l =
     \<lparr>ext_x = MipExtent (ext_x e) l, ext_y = 1, ext_z = 1\<rparr>"
| "GetMipExtent_desc_switch Texture2D e layers l =
     \<lparr>ext_x = MipExtent (ext_x e) l, ext_y = MipExtent (ext_y e) l, ext_z = 1\<rparr>"
| "GetMipExtent_desc_switch Texture3D e layers l =
     \<lparr>ext_x = MipExtent (ext_x e) l, ext_y = MipExtent (ext_y e) l, ext_z = MipExtent (ext_z e) l\<rparr>"
| "GetMipExtent_desc_switch TextureCube e layers l =
     \<lparr>ext_x = MipExtent (ext_x e) l, ext_y = MipExtent (ext_y e) l, ext_z = 6\<rparr>"
| "GetMipExtent_desc_switch Texture1DArray e layers l =
     \<lparr>ext_x = MipExtent (ext_x e) l, ext_y = layers, ext_z = 1\<rparr>"
| "GetMipExtent_desc_switch Texture2DArray e layers l =
     \<lparr>ext_x = MipExtent (ext_x e) l, ext_y = MipExtent (ext_y e) l, ext_z = layers\<rparr>"
| "GetMipExtent_desc_switch TextureCubeArray e layers l =
     \<lparr>ext_x = MipExtent (ext_x e) l, ext_y = MipExtent (ext_y e) l,
      ext_z = GetAlignedSize layers 6\<rparr>"
| "GetMipExtent_desc_switch Texture2DMS e layers l =
     \<lparr>ext_x = ext_x e, ext_y = ext_y e, ext_z = 1\<rparr>"
| "GetMipExtent_desc_switch Texture2DMSArray e layers l =
     \<lparr>ext_x = ext_x e, ext_y = ext_y e, ext_z = layers\<rparr>"

definition GetMipExtent_desc :: "externals \<Rightarrow> TextureDescriptor \<Rightarrow> u32 \<Rightarrow> Extent3D option" where
  "GetMipExtent_desc E textureDesc mipLevel =
     (let extent = desc_extent textureDesc in
      case NumMipLevels_type E (desc_type textureDesc) extent of
        None \<Rightarrow> None
      | Some n \<Rightarrow>
          if mipLevel < n
          then Some (GetMipExtent_desc_switch (desc_type textureDesc) extent
                       (arrayLayers textureDesc) mipLevel)
          else Some Extent3D_zero)"

text \<open>\<^verbatim>\<open>IsMultiSampleTexture\<close>: \<^verbatim>\<open>type >= TextureType::Texture2DMS\<close>, the last two enumerators.\<close>

fun IsMultiSampleTexture :: "TextureType \<Rightarrow> bool" where
  "IsMultiSampleTexture Texture2DMS = True"
| "IsMultiSampleTexture Texture2DMSArray = True"
| "IsMultiSampleTexture _ = False"

section \<open>UTF8String.h and UTF8String.cpp\<close>

text \<open>
  A string holds one \<^verbatim>\<open>SmallVector<char> data_\<close>, the field \<open>data\<close> here. A \<^verbatim>\<open>StringView\<close> is the list of its
  bytes, a \<^verbatim>\<open>WStringView\<close> the list of its \<^verbatim>\<open>wchar_t\<close> values, read as \<open>int\<close> (the
  loops over a wide string bind each element to an \<^verbatim>\<open>int\<close>).
\<close>

record UTF8String =
  data :: "byte list"

datatype error =
    Trap string  \<comment> \<open>\<^verbatim>\<open>LLGL_TRAP\<close> with its message\<close>
  | ReadPastEnd  \<comment> \<open>an iterator dereferenced beyond the end of its view: undefined behaviour\<close>

subsection \<open>Encoding a wide string\<close>

text \<open>\<^verbatim>\<open>GetUTF8CharCount(int c)\<close>.\<close>

definition GetUTF8CharCount :: "int \<Rightarrow> nat" where
  "GetUTF8CharCount c =
     (if c < 0x0080 then 1
      else if c < 0x07FF then 2
      else if c < 0xFFFF then 3
      else 4)"

text \<open>\<^verbatim>\<open>AppendUTF8Character(str, code)\<close>; \<^verbatim>\<open>static_cast<char>\<close> keeps the low eight bits.\<close>

definition AppendUTF8Character :: "byte list \<Rightarrow> int \<Rightarrow> byte list" where
  "AppendUTF8Character str code =
     (if code < 0x0080 then
        str @ [word_of_int code]
      else if code < 0x07FF then
        str @ [word_of_int (0xC0 OR (drop_bit 6 code AND 0x1F)),
               word_of_int (0x80 OR (code AND 0x3F))]
      else if code < 0xFFFF then
        str @ [word_of_int (0xE0 OR (drop_bit 12 code AND 0x0F)),
               word_of_int (0x80 OR (drop_bit 6 code AND 0x3F)),
               word_of_int (0x80 OR (code AND 0x3F))]
      else
        str @ [word_of_int (0xF0 OR (drop_bit 18 code AND 0x07)),
               word_of_int (0x80 OR (drop_bit 12 code AND 0x3F)),
               word_of_int (0x80 OR (drop_bit 6 code AND 0x3F)),
               word_of_int (0x80 OR (code AND 0x3F))])"

text \<open>\<^verbatim>\<open>ConvertWStringViewToUTF8CharArray\<close>: every element appended in turn, then the NUL.\<close>

definition ConvertWStringViewToUTF8CharArray :: "int list \<Rightarrow> byte list" where
  "ConvertWStringViewToUTF8CharArray s = foldl AppendUTF8Character [] s @ [0]"

text \<open>\<^verbatim>\<open>ConvertStringViewToCharArray\<close>.\<close>

definition ConvertStringViewToCharArray :: "byte list \<Rightarrow> byte list" where
  "ConvertStringViewToCharArray str = str @ [0]"

subsection \<open>Decoding to UTF-16\<close>

text \<open>
  The loop of \<^verbatim>\<open>ConvertToUTF16WCharArray\<close>, with the vector \<^verbatim>\<open>utf16\<close> as accumulator. The
  lead byte is read through \<^verbatim>\<open>unsigned char\<close> (\<open>uint\<close>), the continuation bytes through
  \<^verbatim>\<open>char\<close> (\<open>sint\<close>; where \<^verbatim>\<open>char\<close> is unsigned the masked values are the same). A
  continuation byte that is not in the view is read beyond its end, and the iterator then
  never equals \<^verbatim>\<open>s.end()\<close>: \<open>ReadPastEnd\<close>.
\<close>

fun ConvertToUTF16_loop :: "byte list \<Rightarrow> int list \<Rightarrow> error + int list" where
  "ConvertToUTF16_loop [] utf16 = Inr utf16"
| "ConvertToUTF16_loop (b # it) utf16 =
     (let c = uint b in
      if c AND 0x80 = 0x00 then
        ConvertToUTF16_loop it (utf16 @ [c])
      else if c AND 0xE0 = 0xC0 then
        (case it of
           b1 # it' \<Rightarrow>
             (let w0 = c AND 0x1F; w1 = sint b1 AND 0x3F
              in ConvertToUTF16_loop it' (utf16 @ [push_bit 5 w0 OR w1]))
         | _ \<Rightarrow> Inl ReadPastEnd)
      else if c AND 0xF0 = 0xE0 then
        (case it of
           b1 # b2 # it' \<Rightarrow>
             (let w0 = c AND 0x0F; w1 = sint b1 AND 0x3F; w2 = sint b2 AND 0x3F
              in ConvertToUTF16_loop it' (utf16 @ [push_bit 12 w0 OR push_bit 6 w1 OR w2]))
         | _ \<Rightarrow> Inl ReadPastEnd)
      else Inl (Trap ''UTF8 character bigger than two bytes''))"

definition ConvertToUTF16WCharArray :: "byte list \<Rightarrow> error + int list" where
  "ConvertToUTF16WCharArray s =
     (case ConvertToUTF16_loop s [] of
        Inl e \<Rightarrow> Inl e
      | Inr utf16 \<Rightarrow> Inr (utf16 @ [0]))"

subsection \<open>The container\<close>

text \<open>
  \<^verbatim>\<open>size()\<close> is \<^verbatim>\<open>data_.size() - 1\<close> in \<^verbatim>\<open>std::size_t\<close> (64 bits): on an empty vector
  it would wrap around.
\<close>

definition size_UTF8 :: "UTF8String \<Rightarrow> nat" where
  "size_UTF8 s = (if data s = [] then 2 ^ 64 - 1 else length (data s) - 1)"

text \<open>\<^verbatim>\<open>c_str()\<close> and \<^verbatim>\<open>data()\<close> point at the first element of \<^verbatim>\<open>data_\<close>.\<close>

definition c_str :: "UTF8String \<Rightarrow> byte list" where
  "c_str s = data s"

text \<open>The constructors: default, copy, move (which clears its argument), from a
  \<^verbatim>\<open>StringView\<close> and from a \<^verbatim>\<open>WStringView\<close>.\<close>

definition clear :: "UTF8String \<Rightarrow> UTF8String" where
  "clear s = s\<lparr>data := [0]\<rparr>"

definition UTF8String_default :: UTF8String where
  "UTF8String_default = \<lparr>data = [0]\<rparr>"

definition UTF8String_copy :: "UTF8String \<Rightarrow> UTF8String" where
  "UTF8String_copy rhs = \<lparr>data = data rhs\<rparr>"

definition UTF8String_move :: "UTF8String \<Rightarrow> UTF8String \<times> UTF8String" where
  "UTF8String_move rhs = (\<lparr>data = data rhs\<rparr>, clear rhs)"

definition UTF8String_StringView :: "byte list \<Rightarrow> UTF8String" where
  "UTF8String_StringView str = \<lparr>data = ConvertStringViewToCharArray str\<rparr>"

definition UTF8String_WStringView :: "int list \<Rightarrow> UTF8String" where
  "UTF8String_WStringView str = \<lparr>data = ConvertWStringViewToUTF8CharArray str\<rparr>"

text \<open>The assignment operators; the move assignment returns the assigned string and the
  cleared right-hand side.\<close>

definition assign_copy :: "UTF8String \<Rightarrow> UTF8String \<Rightarrow> UTF8String" where
  "assign_copy s rhs = s\<lparr>data := data rhs\<rparr>"

definition assign_move :: "UTF8String \<Rightarrow> UTF8String \<Rightarrow> UTF8String \<times> UTF8String" where
  "assign_move s rhs = (s\<lparr>data := data rhs\<rparr>, clear rhs)"

text \<open>
  \<^verbatim>\<open>SmallVector::resize(n, ch)\<close> truncates or pads with \<^verbatim>\<open>ch\<close>;
  \<^verbatim>\<open>pop_back\<close> is \<open>butlast\<close> (the vector is not empty where it is called: every string
  that can be built holds its NUL); \<^verbatim>\<open>reserve\<close> changes the capacity only.
\<close>

definition SmallVector_resize :: "'a list \<Rightarrow> nat \<Rightarrow> 'a \<Rightarrow> 'a list" where
  "SmallVector_resize v n ch = take n v @ replicate (n - length v) ch"

definition resize :: "UTF8String \<Rightarrow> nat \<Rightarrow> byte \<Rightarrow> UTF8String" where
  "resize s n ch =
     (if n \<noteq> size_UTF8 s
      then s\<lparr>data := SmallVector_resize (butlast (data s)) n ch @ [0]\<rparr>
      else s)"

text \<open>\<^verbatim>\<open>append(count, ch)\<close>; the sum is a \<^verbatim>\<open>std::size_t\<close>.\<close>

definition append_fill :: "UTF8String \<Rightarrow> nat \<Rightarrow> byte \<Rightarrow> UTF8String" where
  "append_fill s count ch = resize s ((size_UTF8 s + count) mod 2 ^ 64) ch"

text \<open>\<^verbatim>\<open>append(first, last)\<close> for a range of bytes outside the string itself, given as the
  list of its bytes (its length is \<^verbatim>\<open>std::distance(first, last)\<close>).\<close>

definition append_range :: "UTF8String \<Rightarrow> byte list \<Rightarrow> UTF8String" where
  "append_range s bytes =
     (if 0 < length bytes
      then s\<lparr>data := butlast (data s) @ bytes @ [0]\<rparr>
      else s)"

text \<open>\<^verbatim>\<open>substr(pos, count)\<close>: the view \<^verbatim>\<open>StringView{ &(data_[pos]), count }\<close> converted to a
  string.\<close>

definition substr :: "UTF8String \<Rightarrow> nat \<Rightarrow> nat \<Rightarrow> error + UTF8String" where
  "substr s pos count =
     (if pos > size_UTF8 s
      then Inl (Trap ''start position for UTF8 string out of range'')
      else
        (let count' = min count (size_UTF8 s - pos)
         in Inr (UTF8String_StringView (take count' (drop pos (data s))))))"

text \<open>\<^verbatim>\<open>to_utf16()\<close>: the view \<^verbatim>\<open>StringView{ c_str(), size() }\<close> decoded.\<close>

definition to_utf16 :: "UTF8String \<Rightarrow> error + int list" where
  "to_utf16 s = ConvertToUTF16WCharArray (take (size_UTF8 s) (c_str s))"

text \<open>
  The strings a program can build: by a constructor, and from such strings by \<^verbatim>\<open>resize\<close>,
  \<^verbatim>\<open>append\<close>, \<^verbatim>\<open>clear\<close> and the two assignments (whose right-hand sides are strings
  built in the same way; a move leaves its right-hand side cleared).
\<close>

inductive constructible :: "UTF8String \<Rightarrow> bool" where
  ctor_default: "constructible UTF8String_default"
| ctor_StringView: "constructible (UTF8String_StringView str)"
| ctor_WStringView: "constructible (UTF8String_WStringView wstr)"
| ctor_copy: "constructible rhs \<Longrightarrow> constructible (UTF8String_copy rhs)"
| ctor_move: "constructible rhs \<Longrightarrow> constructible (fst (UTF8String_move rhs))"
| ctor_moved_from: "constructible rhs \<Longrightarrow> constructible (snd (UTF8String_move rhs))"
| op_resize: "constructible s \<Longrightarrow> constructible (resize s n ch)"
| op_append_fill: "constructible s \<Longrightarrow> constructible (append_fill s count ch)"
| op_append_range: "constructible s \<Longrightarrow> constructible (append_range s bytes)"
| op_clear: "constructible s \<Longrightarrow> constructible (clear s)"
| op_assign_copy: "constructible s \<Longrightarrow> constructible rhs \<Longrightarrow> constructible (assign_copy s rhs)"
| op_assign_move: "constructible s \<Longrightarrow> constructible rhs \<Longrightarrow> constructible (fst (assign_move s rhs))"
| op_assign_moved_from: "constructible s \<Longrightarrow> constructible rhs \<Longrightarrow> constructible (snd (assign_move s rhs))"

section \<open>Display.h, LinuxDisplay.cpp and AndroidDisplay.cpp\<close>

record Extent2D =
  width :: u32
  height :: u32

record DisplayMode =
  resolution :: Extent2D
  refreshRate :: u32

text \<open>
  What LinuxDisplay.cpp asks of the X server for its screen, over a server state \<open>'s\<close>:
  \<^item> \<open>XRRSizes\<close>: the screen sizes (\<^verbatim>\<open>XRRScreenSize\<close>: \<^verbatim>\<open>int width, height\<close>); the index in
    this list is the size index;
  \<^item> \<open>XRRRates\<close>: the refresh rates (\<^verbatim>\<open>short\<close>) of a size index;
  \<^item> \<open>XRRGetScreenInfo\<close>: whether the screen configuration is returned (not null);
  \<^item> \<open>XRRSetScreenConfig\<close>: for a size index, the status and the server state after the
    request.
\<close>

record 's xrandr =
  XRRSizes :: "(int \<times> int) list"
  XRRRates :: "nat \<Rightarrow> int list"
  XRRGetScreenInfo :: "'s \<Rightarrow> bool"
  XRRSetScreenConfig :: "nat \<Rightarrow> 's \<Rightarrow> int \<times> 's"

text \<open>The test in the loop of \<^verbatim>\<open>LinuxDisplay::SetDisplayMode\<close>: the resolution equals the
  screen size converted to \<^verbatim>\<open>std::uint32_t\<close>.\<close>

definition resolution_matches :: "DisplayMode \<Rightarrow> int \<times> int \<Rightarrow> bool" where
  "resolution_matches displayMode scrSize \<longleftrightarrow>
     width (resolution displayMode) = word_of_int (fst scrSize) \<and>
     height (resolution displayMode) = word_of_int (snd scrSize)"

text \<open>The loop of \<^verbatim>\<open>LinuxDisplay::SetDisplayMode\<close> from index \<open>i\<close> on, over the sizes that
  are left; the result is the returned flag and the server state.\<close>

fun SetDisplayMode_loop ::
  "'s xrandr \<Rightarrow> DisplayMode \<Rightarrow> nat \<Rightarrow> (int \<times> int) list \<Rightarrow> 's \<Rightarrow> bool \<times> 's" where
  "SetDisplayMode_loop X displayMode i [] st = (False, st)"
| "SetDisplayMode_loop X displayMode i (scrSize # rest) st =
     (if resolution_matches displayMode scrSize then
        (if XRRGetScreenInfo X st then
           (let (status, st') = XRRSetScreenConfig X i st
            in (status \<noteq> 0, st'))
         else SetDisplayMode_loop X displayMode (i + 1) rest st)
      else SetDisplayMode_loop X displayMode (i + 1) rest st)"

definition LinuxDisplay_SetDisplayMode :: "'s xrandr \<Rightarrow> DisplayMode \<Rightarrow> 's \<Rightarrow> bool \<times> 's" where
  "LinuxDisplay_SetDisplayMode X displayMode st =
     SetDisplayMode_loop X displayMode 0 (XRRSizes X) st"

text \<open>\<^verbatim>\<open>AndroidDisplay::SetDisplayMode\<close> returns false and does nothing else.\<close>

definition AndroidDisplay_SetDisplayMode :: "DisplayMode \<Rightarrow> 's \<Rightarrow> bool \<times> 's" where
  "AndroidDisplay_SetDisplayMode displayMode st = (False, st)"

text \<open>
  Modelled from the spec: \<^verbatim>\<open>Display::FinalizeDisplayModes\<close> is declared in Display.h and
  its definition is not among the sources. Display.h says that it sorts the list as
  described for \<^verbatim>\<open>GetSupportedDisplayModes\<close> (first the number of pixels, resolution width
  times resolution height, ascending, then the refresh rate, ascending) and removes duplicate
  entries.
\<close>

definition displayMode_key :: "DisplayMode \<Rightarrow> nat \<times> nat" where
  "displayMode_key m =
     (unat (width (resolution m)) * unat (height (resolution m)), unat (refreshRate m))"

definition FinalizeDisplayModes :: "DisplayMode list \<Rightarrow> DisplayMode list" where
  "FinalizeDisplayModes displayModes = remdups (sort_key displayMode_key displayModes)"

text \<open>The two loops of \<^verbatim>\<open>LinuxDisplay::GetSupportedDisplayModes\<close>: one mode for each rate
  of each size.\<close>

fun push_rates :: "int \<times> int \<Rightarrow> int list \<Rightarrow> DisplayMode list \<Rightarrow> DisplayMode list" where
  "push_rates scrSize [] displayModes = displayModes"
| "push_rates scrSize (rate # rates) displayModes =
     push_rates scrSize rates
       (displayModes @
        [\<lparr>resolution = \<lparr>width = word_of_int (fst scrSize), height = word_of_int (snd scrSize)\<rparr>,
          refreshRate = word_of_int rate\<rparr>])"

fun push_sizes :: "'s xrandr \<Rightarrow> nat \<Rightarrow> (int \<times> int) list \<Rightarrow> DisplayMode list \<Rightarrow> DisplayMode list" where
  "push_sizes X i [] displayModes = displayModes"
| "push_sizes X i (scrSize # rest) displayModes =
     push_sizes X (i + 1) rest (push_rates scrSize (XRRRates X i) displayModes)"

definition LinuxDisplay_GetSupportedDisplayModes :: "'s xrandr \<Rightarrow> DisplayMode list" where
  "LinuxDisplay_GetSupportedDisplayModes X =
     FinalizeDisplayModes (push_sizes X 0 (XRRSizes X) [])"

text \<open>
  AndroidDisplay.cpp: the window's width and height (\<^verbatim>\<open>std::int32_t\<close>), when there is an
  application state with a window; the one supported mode is the current one.
\<close>

definition GetAndroidWindowExtent :: "(int \<times> int) option \<Rightarrow> Extent2D" where
  "GetAndroidWindowExtent window =
     (case window of
        Some (w, h) \<Rightarrow>
          if w > 0 \<and> h > 0 then \<lparr>width = word_of_int w, height = word_of_int h\<rparr>
          else \<lparr>width = 0, height = 0\<rparr>
      | None \<Rightarrow> \<lparr>width = 0, height = 0\<rparr>)"

definition AndroidDisplay_GetDisplayMode :: "(int \<times> int) option \<Rightarrow> DisplayMode" where
  "AndroidDisplay_GetDisplayMode window =
     \<lparr>resolution = GetAndroidWindowExtent window, refreshRate = 60\<rparr>"

definition AndroidDisplay_GetSupportedDisplayModes :: "(int \<times> int) option \<Rightarrow> DisplayMode list" where
  "AndroidDisplay_GetSupportedDisplayModes window = [AndroidDisplay_GetDisplayMode window]"

section \<open>AndroidGLContext.cpp: the sample count of the framebuffer configuration\<close>

record GLPixelFormat =
  colorBits :: int
  depthBits :: int
  stencilBits :: int
  samples :: int

text \<open>
  \<^verbatim>\<open>eglChooseConfig\<close> is the EGL implementation's: \<open>eglChooseConfig depth stencil smp\<close>
  tells whether it succeeds with at least one configuration for the attribute list that
  \<^verbatim>\<open>SelectConfig\<close> builds from the depth bits, the stencil bits and the sample count,
  \<open>None\<close> when the \<^verbatim>\<open>EGL_SAMPLE_BUFFERS\<close> and \<^verbatim>\<open>EGL_SAMPLES\<close> entries are cut off
  (\<^verbatim>\<open>samples_ <= 1\<close>).
\<close>

type_synonym egl = "int \<Rightarrow> int \<Rightarrow> int option \<Rightarrow> bool"

text \<open>The loop of \<^verbatim>\<open>AndroidGLContext::SelectConfig\<close> from a value of \<^verbatim>\<open>samples_\<close> on; the
  result is the returned flag and \<^verbatim>\<open>samples_\<close>, which \<^verbatim>\<open>GetSamples()\<close> reports.\<close>

function SelectConfig_loop :: "egl \<Rightarrow> GLPixelFormat \<Rightarrow> int \<Rightarrow> bool \<times> int" where
  "SelectConfig_loop eglChooseConfig pixelFormat samples_v =
     (if samples_v > 0 then
        (if eglChooseConfig (depthBits pixelFormat) (stencilBits pixelFormat)
              (if samples_v \<le> 1 then None else Some samples_v)
         then (True, samples_v)
         else SelectConfig_loop eglChooseConfig pixelFormat (samples_v - 1))
      else (False, samples_v))"
  by pat_completeness auto
termination
  by (relation "measure (\<lambda>(c, p, n). nat n)") auto

definition SelectConfig :: "egl \<Rightarrow> GLPixelFormat \<Rightarrow> bool \<times> int" where
  "SelectConfig eglChooseConfig pixelFormat =
     SelectConfig_loop eglChooseConfig pixelFormat (max 1 (samples pixelFormat))"

section \<open>Assumptions on the environment and sample environments\<close>

text \<open>
  What is asked of the platform's \<^verbatim>\<open>std::log2\<close> on the 32-bit integers: it is exact at
  the powers of two, and elsewhere within \<open>1 / 2 ^ 33\<close> of the logarithm. (A \<^verbatim>\<open>double\<close>
  result within a few units in the last place of a value below 32 is within \<open>1 / 2 ^ 48\<close>.)
\<close>

definition log2_accurate :: "(nat \<Rightarrow> real) \<Rightarrow> bool" where
  "log2_accurate L \<longleftrightarrow>
     (\<forall>k < 32. L (2 ^ k) = real k) \<and>
     (\<forall>n. 1 \<le> n \<and> n < 2 ^ 32 \<longrightarrow> \<bar>L n - log 2 (real n)\<bar> \<le> 1 / 2 ^ 33)"

text \<open>A platform whose \<^verbatim>\<open>std::log2\<close> returns the logarithm itself, with the default
  arguments 1.\<close>

definition exact_externals :: externals where
  "exact_externals = \<lparr>std_log2 = log 2 \<circ> real, default_height = 1, default_depth = 1\<rparr>"

text \<open>An EGL implementation that has a configuration for every depth and stencil size, with
  up to \<open>M\<close> samples (\<^verbatim>\<open>EGL_SAMPLES\<close> is a lower bound for \<^verbatim>\<open>eglChooseConfig\<close>).\<close>

definition egl_up_to :: "int \<Rightarrow> egl" where
  "egl_up_to M depth stencil smp = (case smp of None \<Rightarrow> True | Some k \<Rightarrow> k \<le> M)"

text \<open>An X server with two screen sizes whose state is the index of the size in use, and
  which carries out every request with status 0.\<close>

definition two_sizes :: "nat xrandr" where
  "two_sizes =
     \<lparr>XRRSizes = [(1920, 1080), (1280, 720)],
      XRRRates = (\<lambda>i. if i = 0 then [60, 50] else [60]),
      XRRGetScreenInfo = (\<lambda>st. True),
      XRRSetScreenConfig = (\<lambda>i st. (0, i))\<rparr>"

section \<open>Properties of the extent arithmetic\<close>

subsection \<open>The logarithm\<close>

lemma pow2_inv_ge:
  assumes "k \<le> m"
  shows "1 / 2 ^ m \<le> 1 / (2::real) ^ k"
  using assms by (simp add: frac_le power_increasing)

lemma ln_le_log2:
  fixes t :: real
  assumes "1 \<le> t"
  shows "ln t \<le> log 2 t"
proof -
  have ln2: "0 < ln (2::real)" "ln (2::real) \<le> 1"
    using ln_2_less_1 by simp_all
  have "0 \<le> ln t" using assms by simp
  then have "ln t * ln 2 \<le> ln t * 1"
    using ln2 by (intro mult_left_mono) simp_all
  then have "ln t \<le> ln t / ln 2" using ln2 by (simp add: pos_le_divide_eq)
  then show ?thesis by (simp only: log_def)
qed

lemma log2_le_ln:
  fixes t :: real
  assumes "0 < t" "t \<le> 1"
  shows "log 2 t \<le> ln t"
proof -
  have ln2: "0 < ln (2::real)" "ln (2::real) \<le> 1"
    using ln_2_less_1 by simp_all
  have "ln t \<le> 0" using assms by simp
  then have "ln t * 1 \<le> ln t * ln 2"
    using ln2 by (intro mult_left_mono_neg) simp_all
  then have "ln t / ln 2 \<le> ln t" using ln2 by (simp add: pos_divide_le_eq)
  then show ?thesis by (simp only: log_def)
qed

lemma log2_above_power:
  fixes n k :: nat
  assumes k1: "1 \<le> k" and k31: "k \<le> 31" and n: "2 ^ k + 1 \<le> n"
  shows "real k + 1 / 2 ^ 32 \<le> log 2 (real n)"
proof -
  define x :: real where "x = 1 / 2 ^ k"
  define c :: real where "c = 1 / 2 ^ 32"
  have x0: "0 < x" by (simp add: x_def)
  have "x \<le> 1 / 2 ^ 1" unfolding x_def using k1 by (intro pow2_inv_ge) simp
  then have xh: "x \<le> 1 / 2" by simp
  have "1 / 2 ^ 31 \<le> x" unfolding x_def using k31 by (intro pow2_inv_ge) simp
  moreover have "c = (1 / 2 ^ 31) / 2" by (simp add: c_def)
  ultimately have "c \<le> x / 2" by simp
  also have "x / 2 \<le> x - x\<^sup>2"
  proof -
    have "x * x \<le> x * (1 / 2)" using x0 xh by (intro mult_left_mono) simp_all
    then show ?thesis by (simp add: power2_eq_square)
  qed
  also have "\<dots> \<le> ln (1 + x)"
    using x0 xh by (intro ln_one_plus_pos_lower_bound) simp_all
  also have "\<dots> \<le> log 2 (1 + x)"
    using x0 by (intro ln_le_log2) simp
  finally have lg: "c \<le> log 2 (1 + x)" .
  have "log 2 (2 ^ k * (1 + x)) = log 2 (2 ^ k) + log 2 (1 + x)"
    using x0 by (intro log_mult_pos) simp_all
  also have "log 2 ((2::real) ^ k) = real k"
    by (intro log_pow_cancel) simp_all
  finally have "log 2 (2 ^ k * (1 + x)) = real k + log 2 (1 + x)" .
  moreover have "2 ^ k * (1 + x) = (2::real) ^ k + 1"
    by (simp add: x_def algebra_simps)
  ultimately have "log 2 (2 ^ k + 1) = real k + log 2 (1 + x)"
    by (simp only:)
  with lg have "real k + c \<le> log 2 (2 ^ k + 1)"
    by simp
  also have "\<dots> \<le> log 2 (real n)"
  proof -
    from n have "real (2 ^ k + 1) \<le> real n" by (simp only: of_nat_le_iff)
    then have "(2::real) ^ k + 1 \<le> real n" by simp
    moreover have "0 < (2::real) ^ k + 1" by (simp add: add_pos_pos)
    ultimately show ?thesis by (subst log_le_cancel_iff) simp_all
  qed
  finally show ?thesis by (simp only: c_def)
qed


lemma log2_below_power:
  fixes n k :: nat
  assumes k31: "k \<le> 31" and n1: "1 \<le> n" and n: "n < 2 ^ (k + 1)"
  shows "log 2 (real n) \<le> real k + 1 - 1 / 2 ^ 32"
proof -
  define y :: real where "y = 1 / 2 ^ (k + 1)"
  define c :: real where "c = 1 / 2 ^ 32"
  have y0: "0 < y" by (simp add: y_def)
  have "y \<le> 1 / 2 ^ 1" unfolding y_def by (intro pow2_inv_ge) simp
  then have yh: "y \<le> 1 / 2" by simp
  have yl: "c \<le> y" unfolding y_def c_def using k31 by (intro pow2_inv_ge) simp
  have "log 2 (1 - y) \<le> ln (1 - y)"
    using y0 yh by (intro log2_le_ln) simp_all
  also have "\<dots> \<le> - y"
    using y0 yh by (intro ln_one_minus_pos_upper_bound) simp_all
  also have "\<dots> \<le> - c" using yl by simp
  finally have lg: "log 2 (1 - y) \<le> - c" .
  have "log 2 (2 ^ (k + 1) * (1 - y)) = log 2 (2 ^ (k + 1)) + log 2 (1 - y)"
    using yh by (intro log_mult_pos) simp_all
  also have "log 2 ((2::real) ^ (k + 1)) = real (k + 1)"
    by (intro log_pow_cancel) simp_all
  finally have "log 2 (2 ^ (k + 1) * (1 - y)) = real (k + 1) + log 2 (1 - y)" .
  moreover have "2 ^ (k + 1) * (1 - y) = (2::real) ^ (k + 1) - 1"
    by (simp add: y_def algebra_simps)
  ultimately have "log 2 (2 ^ (k + 1) - 1) = real (k + 1) + log 2 (1 - y)"
    by (simp only:)
  with lg have ub: "log 2 (2 ^ (k + 1) - 1) \<le> real k + 1 - c"
    by simp
  have "log 2 (real n) \<le> log 2 (2 ^ (k + 1) - 1)"
  proof -
    from n have "n + 1 \<le> 2 ^ (k + 1)" by simp
    then have "real (n + 1) \<le> real (2 ^ (k + 1))" by (simp only: of_nat_le_iff)
    then have "real n \<le> 2 ^ (k + 1) - 1" by simp
    moreover have "0 < real n" using n1 by simp
    ultimately show ?thesis by (subst log_le_cancel_iff) simp_all
  qed
  also note ub
  finally show ?thesis by (simp only: c_def)
qed

lemma within_error_ge:
  fixes L lg :: real
  assumes "real k + 1 / 2 ^ 32 \<le> lg" and "\<bar>L - lg\<bar> \<le> 1 / 2 ^ 33"
  shows "real k \<le> L"
proof -
  define a :: real where "a = 1 / 2 ^ 32"
  define b :: real where "b = 1 / 2 ^ 33"
  have "b < a" by (simp add: a_def b_def)
  with assms [folded a_def b_def] show ?thesis by linarith
qed

lemma within_error_less:
  fixes L lg :: real
  assumes "lg \<le> real k + 1 - 1 / 2 ^ 32" and "\<bar>L - lg\<bar> \<le> 1 / 2 ^ 33"
  shows "L < real k + 1"
proof -
  define a :: real where "a = 1 / 2 ^ 32"
  define b :: real where "b = 1 / 2 ^ 33"
  have "b < a" by (simp add: a_def b_def)
  with assms [folded a_def b_def] show ?thesis by linarith
qed

text \<open>Truncating an accurate \<^verbatim>\<open>std::log2\<close> gives the floor of the logarithm, below 32.\<close>

lemma floor_std_log2:
  fixes n :: nat
  assumes acc: "log2_accurate L" and n1: "1 \<le> n" and n32: "n < 2 ^ 32"
  shows "\<lfloor>L n\<rfloor> = \<lfloor>log 2 (real n)\<rfloor> \<and> 0 \<le> L n \<and> L n < 32"
proof -
  from ex_power_ivl1 [of 2 n] n1 obtain k where k: "2 ^ k \<le> n" "n < 2 ^ (k + 1)"
    by auto
  have k31: "k \<le> 31"
  proof (rule ccontr)
    assume "\<not> k \<le> 31"
    then have "32 \<le> k" by simp
    then have "(2::nat) ^ 32 \<le> 2 ^ k" by (intro power_increasing) simp_all
    with k(1) n32 show False by simp
  qed
  have fl: "\<lfloor>log 2 (real n)\<rfloor> = int k"
    using floor_log_nat_eq_if [of 2 k n] k by simp
  have err: "\<bar>L n - log 2 (real n)\<bar> \<le> 1 / 2 ^ 33"
    using acc n1 n32 by (simp add: log2_accurate_def)
  have lo: "real k \<le> L n"
  proof (cases "n = 2 ^ k")
    case True
    with acc k31 show ?thesis by (simp add: log2_accurate_def)
  next
    case False
    with k(1) have n': "2 ^ k + 1 \<le> n" by simp
    have "1 \<le> k"
    proof (rule ccontr)
      assume "\<not> 1 \<le> k"
      then have "k = 0" by simp
      with k n' show False by simp
    qed
    from log2_above_power [OF this k31 n'] err show ?thesis
      by (rule within_error_ge)
  qed
  have hi: "L n < real k + 1"
    using log2_below_power [OF k31 n1 k(2)] err by (rule within_error_less)
  from lo hi have "\<lfloor>L n\<rfloor> = int k"
    by (simp add: floor_eq_iff)
  moreover from lo have "0 \<le> L n" by (rule order_trans [rotated]) simp
  moreover from hi k31 have "L n < 32" by simp
  ultimately show ?thesis using fl by simp
qed

lemma log2_accurate_exact: "log2_accurate (log 2 \<circ> real)"
  by (simp add: log2_accurate_def log_pow_cancel)

lemma log2_64: "log 2 (64::real) = 6"
  using log_pow_cancel [of "2::real" 6] by simp

lemma NumMipLevels_value:
  assumes acc: "log2_accurate (std_log2 E)" and pos: "max w (max h d) \<noteq> 0"
  shows "NumMipLevels E w h d =
           Some (word_of_int (1 + \<lfloor>log 2 (real (unat (max w (max h d))))\<rfloor>))"
proof -
  let ?m = "max w (max h d)"
  have n1: "1 \<le> unat ?m" using pos by (simp add: unat_gt_0 Suc_leI)
  have n32: "unat ?m < 2 ^ 32" using unsigned_less [of ?m] by simp
  from floor_std_log2 [OF acc n1 n32]
  have fl: "\<lfloor>std_log2 E (unat ?m)\<rfloor> = \<lfloor>log 2 (real (unat ?m))\<rfloor>"
    and r: "0 \<le> std_log2 E (unat ?m)" "std_log2 E (unat ?m) < 32" by simp_all
  from r have "double_to_u32 (std_log2 E (unat ?m)) = Some (word_of_int \<lfloor>std_log2 E (unat ?m)\<rfloor>)"
    by (simp add: double_to_u32_def)
  with pos fl show ?thesis
    by (simp add: NumMipLevels_def Let_def)
qed

lemma unat_of_nat_small: "m < 2 ^ 32 \<Longrightarrow> unat (of_nat m :: u32) = m"
  by (simp add: unat_of_nat)

lemma floor_log2_bounds:
  fixes n :: nat
  assumes "1 \<le> n" "n < 2 ^ 32"
  shows "0 \<le> \<lfloor>log 2 (real n)\<rfloor> \<and> \<lfloor>log 2 (real n)\<rfloor> \<le> 31"
  using floor_std_log2 [OF log2_accurate_exact assms] by (simp add: floor_less_iff)

text \<open>With an accurate \<^verbatim>\<open>std::log2\<close> there are at most 32 MIP levels, so that every level
  below \<^verbatim>\<open>NumMipLevels\<close> is a shift count below the width of \<^verbatim>\<open>std::uint32_t\<close>.\<close>

lemma NumMipLevels_le_32:
  assumes "log2_accurate (std_log2 E)" and "NumMipLevels E w h d = Some n"
  shows "unat n \<le> 32"
proof -
  let ?m = "max w (max h d)"
  from assms(2) have pos: "?m \<noteq> 0"
    by (auto simp: NumMipLevels_def Let_def split: if_splits)
  have n1: "1 \<le> unat ?m" using pos by (simp add: unat_gt_0 Suc_leI)
  have n32: "unat ?m < 2 ^ 32" using unsigned_less [of ?m] by simp
  from floor_log2_bounds [OF n1 n32] obtain k :: nat
    where k: "\<lfloor>log 2 (real (unat ?m))\<rfloor> = int k" "k \<le> 31"
    by (metis nat_0_le nat_le_iff of_nat_numeral)
  from NumMipLevels_value [OF assms(1) pos] assms(2) k(1)
  have "n = word_of_int (1 + int k)" by simp
  then have "n = of_nat (k + 1)" by simp
  moreover have "unat (of_nat (k + 1) :: u32) = k + 1"
    using k(2) by (intro unat_of_nat_small) simp
  ultimately show ?thesis using k(2) by simp
qed

subsection \<open>The number of MIP levels\<close>

text \<open>
  C3. For every extent \<open>(w, h, d)\<close> with \<open>w, h, d \<ge> 1\<close>,
  \<^verbatim>\<open>NumMipLevels(w, h, d)\<close> is 1 plus the floor of the base-2 logarithm of the largest of the
  three; when the largest is \<open>2 ^ k\<close> it is \<open>k + 1\<close>, and when the largest is 1 it is 1.
  The platform's \<^verbatim>\<open>std::log2\<close> is assumed accurate (\<open>log2_accurate\<close>).
\<close>

theorem NumMipLevels_floor_log2:
  assumes "log2_accurate (std_log2 E)" and "1 \<le> w" and "1 \<le> h" and "1 \<le> d"
  shows "(\<exists>n. NumMipLevels E w h d = Some n \<and>
              int (unat n) = 1 + \<lfloor>log 2 (real (unat (max w (max h d))))\<rfloor>)
       \<and> (\<forall>k. unat (max w (max h d)) = 2 ^ k \<longrightarrow> NumMipLevels E w h d = Some (of_nat (k + 1)))
       \<and> (max w (max h d) = 1 \<longrightarrow> NumMipLevels E w h d = Some 1)"
proof -
  let ?m = "max w (max h d)"
  have pos: "?m \<noteq> 0"
  proof
    assume z: "?m = 0"
    have "w \<le> ?m" by simp
    then have "w \<le> 0" by (simp only: z)
    with assms(2) show False by auto
  qed
  have n1: "1 \<le> unat ?m" using pos by (simp add: unat_gt_0 Suc_leI)
  have n32: "unat ?m < 2 ^ 32" using unsigned_less [of ?m] by simp
  note v = NumMipLevels_value [OF assms(1) pos]
  from floor_log2_bounds [OF n1 n32] obtain j :: nat
    where j: "\<lfloor>log 2 (real (unat ?m))\<rfloor> = int j" "j \<le> 31"
    by (metis nat_0_le nat_le_iff of_nat_numeral)
  have val: "NumMipLevels E w h d = Some (of_nat (j + 1))"
    using v j(1) by simp
  have u: "unat (of_nat (j + 1) :: u32) = j + 1"
    using j(2) by (intro unat_of_nat_small) simp
  have first: "\<exists>n. NumMipLevels E w h d = Some n \<and>
              int (unat n) = 1 + \<lfloor>log 2 (real (unat ?m))\<rfloor>"
  proof (intro exI conjI)
    show "NumMipLevels E w h d = Some (of_nat (j + 1))" by (rule val)
    have "int (unat (of_nat (j + 1) :: u32)) = int (j + 1)" by (simp only: u)
    also have "\<dots> = 1 + \<lfloor>log 2 (real (unat ?m))\<rfloor>" using j(1) by simp
    finally show "int (unat (of_nat (j + 1) :: u32)) = 1 + \<lfloor>log 2 (real (unat ?m))\<rfloor>" .
  qed
  have second: "NumMipLevels E w h d = Some (of_nat (k + 1))" if "unat ?m = 2 ^ k" for k
  proof -
    have "\<lfloor>log 2 (real (unat ?m))\<rfloor> = int k"
      using that by (simp add: log_pow_cancel)
    with j(1) have "j = k" by simp
    with val show ?thesis by simp
  qed
  have third: "NumMipLevels E w h d = Some 1" if "?m = 1"
    using second [of 0] that by simp
  from first second third show ?thesis by blast
qed

text \<open>The extent \<open>(64, 64, 1)\<close> has 7 MIP levels.\<close>

theorem NumMipLevels_floor_log2_witness:
  "log2_accurate (std_log2 exact_externals) \<and> (1::u32) \<le> 64 \<and> (1::u32) \<le> 1 \<and>
   NumMipLevels exact_externals 64 64 1 = Some 7 \<and>
   unat (max (64::u32) (max 64 1)) = 2 ^ 6 \<and>
   1 + \<lfloor>log 2 (real (unat (max (64::u32) (max 64 1))))\<rfloor> = 7"
proof -
  have a: "log2_accurate (std_log2 exact_externals)"
    by (simp add: exact_externals_def log2_accurate_exact)
  have m: "unat (max (64::u32) (max 64 1)) = 2 ^ 6" by simp
  from NumMipLevels_floor_log2 [OF a, of 64 64 1] m
  have "NumMipLevels exact_externals 64 64 1 = Some (of_nat (6 + 1))" by fastforce
  with a m show ?thesis by (simp add: log2_64)
qed

subsection \<open>The extent of a MIP level\<close>

text \<open>
  C4. For every texture type and extent and every MIP level that is not below
  \<^verbatim>\<open>NumMipLevels(type, extent)\<close>, \<^verbatim>\<open>GetMipExtent(type, extent, level)\<close> returns the zero
  extent. (\<^verbatim>\<open>NumMipLevels\<close> has a value unless the largest dimension it looks at is 0.)
\<close>

theorem GetMipExtent_out_of_range:
  assumes "NumMipLevels_type E t extent = Some n" and "n \<le> L"
  shows "GetMipExtent E t extent L = Some \<lparr>ext_x = 0, ext_y = 0, ext_z = 0\<rparr>"
  using assms by (simp add: GetMipExtent_def Extent3D_zero_def not_less [symmetric])

text \<open>A 2D texture of extent \<open>(64, 64, 1)\<close>: level 7 is out of range, level 6 is the last.\<close>

theorem GetMipExtent_out_of_range_witness:
  "NumMipLevels_type exact_externals Texture2D \<lparr>ext_x = 64, ext_y = 64, ext_z = 1\<rparr> = Some 7 \<and>
   GetMipExtent exact_externals Texture2D \<lparr>ext_x = 64, ext_y = 64, ext_z = 1\<rparr> 7
     = Some \<lparr>ext_x = 0, ext_y = 0, ext_z = 0\<rparr> \<and>
   GetMipExtent exact_externals Texture2D \<lparr>ext_x = 64, ext_y = 64, ext_z = 1\<rparr> 6
     = Some \<lparr>ext_x = 1, ext_y = 1, ext_z = 1\<rparr>"
proof -
  have n: "NumMipLevels_type exact_externals Texture2D \<lparr>ext_x = 64, ext_y = 64, ext_z = 1\<rparr> = Some 7"
    by (simp add: NumMipLevels_def double_to_u32_def exact_externals_def log2_64)
  have "GetMipExtent exact_externals Texture2D \<lparr>ext_x = 64, ext_y = 64, ext_z = 1\<rparr> 6
     = Some \<lparr>ext_x = 1, ext_y = 1, ext_z = 1\<rparr>"
    using n by (simp add: GetMipExtent_def MipExtent_def drop_bit_eq_div)
  with n GetMipExtent_out_of_range [OF n, of 7] show ?thesis by simp
qed

text \<open>
  C2, as stated: for a multisample texture type \<^verbatim>\<open>GetMipExtent\<close> returns the input extent
  unchanged for every level. It does not: at level 1 a \<^verbatim>\<open>Texture2DMS\<close> of extent
  \<open>(4, 4, 1)\<close> gets the zero extent, and at level 0 a \<^verbatim>\<open>Texture2DMS\<close> of extent
  \<open>(4, 4, 5)\<close> gets \<open>(4, 4, 1)\<close>.
\<close>

theorem GetMipExtent_multisample_counterexample:
  "GetMipExtent exact_externals Texture2DMS \<lparr>ext_x = 4, ext_y = 4, ext_z = 1\<rparr> 1
     = Some \<lparr>ext_x = 0, ext_y = 0, ext_z = 0\<rparr> \<and>
   GetMipExtent exact_externals Texture2DMS \<lparr>ext_x = 4, ext_y = 4, ext_z = 1\<rparr> 1
     \<noteq> Some \<lparr>ext_x = 4, ext_y = 4, ext_z = 1\<rparr> \<and>
   GetMipExtent exact_externals Texture2DMS \<lparr>ext_x = 4, ext_y = 4, ext_z = 5\<rparr> 0
     \<noteq> Some \<lparr>ext_x = 4, ext_y = 4, ext_z = 5\<rparr>"
  by (simp add: GetMipExtent_def Extent3D_zero_def)

text \<open>
  C2, amended. For a multisample texture type, every extent and every MIP level:
  at level 0 \<^verbatim>\<open>GetMipExtent\<close> returns the width and the height unchanged, with depth 1 for
  \<^verbatim>\<open>Texture2DMS\<close> and the depth unchanged for \<^verbatim>\<open>Texture2DMSArray\<close>; at every other level it
  returns the zero extent, as for any level out of range.
\<close>

theorem GetMipExtent_multisample:
  "GetMipExtent E Texture2DMS e L =
     Some (if L = 0 then \<lparr>ext_x = ext_x e, ext_y = ext_y e, ext_z = 1\<rparr>
           else \<lparr>ext_x = 0, ext_y = 0, ext_z = 0\<rparr>)
   \<and> GetMipExtent E Texture2DMSArray e L =
     Some (if L = 0 then e else \<lparr>ext_x = 0, ext_y = 0, ext_z = 0\<rparr>)"
  by (simp add: GetMipExtent_def Extent3D_zero_def word_less_1)

theorem GetMipExtent_multisample_witness:
  "GetMipExtent exact_externals Texture2DMS \<lparr>ext_x = 4, ext_y = 4, ext_z = 5\<rparr> 0
     = Some \<lparr>ext_x = 4, ext_y = 4, ext_z = 1\<rparr> \<and>
   GetMipExtent exact_externals Texture2DMSArray \<lparr>ext_x = 4, ext_y = 4, ext_z = 5\<rparr> 0
     = Some \<lparr>ext_x = 4, ext_y = 4, ext_z = 5\<rparr> \<and>
   GetMipExtent exact_externals Texture2DMSArray \<lparr>ext_x = 4, ext_y = 4, ext_z = 5\<rparr> 3
     = Some \<lparr>ext_x = 0, ext_y = 0, ext_z = 0\<rparr>"
  using GetMipExtent_multisample [of exact_externals "\<lparr>ext_x = 4, ext_y = 4, ext_z = 5\<rparr>" 0]
    GetMipExtent_multisample [of exact_externals "\<lparr>ext_x = 4, ext_y = 4, ext_z = 5\<rparr>" 3]
  by simp

subsection \<open>Texture descriptors\<close>

lemma GetAlignedSize_6:
  assumes "unat a \<le> 4294967292"
  shows "unat (GetAlignedSize a 6) = ((unat a + 5) div 6) * 6"
proof -
  from assms have "(unat a + 5) div 6 \<le> 715827882" by arith
  then have "((unat a + 5) div 6) * 6 < 2 ^ 32" by simp
  then have "unat (of_nat (((unat a + 5) div 6) * 6) :: u32) = ((unat a + 5) div 6) * 6"
    by (rule unat_of_nat_small)
  moreover have "unat (6::u32) = 6" and "unat a + 6 - 1 = unat a + 5"
    by simp_all
  ultimately show ?thesis
    by (simp only: GetAlignedSize_def)
qed

lemma round_up_6:
  "6 dvd ((n + 5) div 6) * 6 \<and> (n::nat) \<le> ((n + 5) div 6) * 6 \<and> ((n + 5) div 6) * 6 < n + 6"
  by presburger

text \<open>
  C9. For every texture descriptor: if its type is a multisample type, the MIP level count
  computed from its type and extent is 1 (and so is \<^verbatim>\<open>NumMipLevels(textureDesc)\<close> when the
  descriptor leaves the count to be computed, \<^verbatim>\<open>mipLevels == 0\<close>); if its type is
  \<^verbatim>\<open>TextureCubeArray\<close>, the third component of \<^verbatim>\<open>GetMipExtent(textureDesc, level)\<close> at a
  MIP level of the texture is \<^verbatim>\<open>GetAlignedSize(arrayLayers, 6)\<close>, the array layers rounded up
  to the next multiple of 6 (where that is a \<^verbatim>\<open>std::uint32_t\<close>); for \<^verbatim>\<open>TextureCube\<close> it
  is 6.
\<close>

theorem texture_descriptor_mips_and_layers:
  "(IsMultiSampleTexture (desc_type d) \<longrightarrow>
      NumMipLevels_type E (desc_type d) (desc_extent d) = Some 1 \<and>
      (mipLevels d = 0 \<longrightarrow> NumMipLevels_desc E d = Some 1))
  \<and> (desc_type d = TextureCubeArray \<and>
       NumMipLevels_type E (desc_type d) (desc_extent d) = Some n \<and> L < n \<longrightarrow>
      (\<exists>e. GetMipExtent_desc E d L = Some e \<and> ext_z e = GetAlignedSize (arrayLayers d) 6 \<and>
         (unat (arrayLayers d) \<le> 4294967292 \<longrightarrow>
            6 dvd unat (ext_z e) \<and> unat (arrayLayers d) \<le> unat (ext_z e) \<and>
            unat (ext_z e) < unat (arrayLayers d) + 6)))
  \<and> (desc_type d = TextureCube \<and>
       NumMipLevels_type E (desc_type d) (desc_extent d) = Some n \<and> L < n \<longrightarrow>
      (\<exists>e. GetMipExtent_desc E d L = Some e \<and> ext_z e = 6))"
proof (intro conjI impI)
  assume "IsMultiSampleTexture (desc_type d)"
  then show ms: "NumMipLevels_type E (desc_type d) (desc_extent d) = Some 1"
    by (cases "desc_type d") simp_all
  assume "mipLevels d = 0"
  with ms show "NumMipLevels_desc E d = Some 1"
    by (simp add: NumMipLevels_desc_def)
next
  assume "desc_type d = TextureCubeArray \<and>
    NumMipLevels_type E (desc_type d) (desc_extent d) = Some n \<and> L < n"
  then have t: "desc_type d = TextureCubeArray"
    and nm: "NumMipLevels_type E TextureCubeArray (desc_extent d) = Some n" and ln: "L < n"
    by auto
  have "GetMipExtent_desc E d L =
      Some (GetMipExtent_desc_switch TextureCubeArray (desc_extent d) (arrayLayers d) L)"
    unfolding GetMipExtent_desc_def Let_def t nm using ln by simp
  moreover have "unat (arrayLayers d) \<le> 4294967292 \<longrightarrow>
      6 dvd unat (GetAlignedSize (arrayLayers d) 6) \<and>
      unat (arrayLayers d) \<le> unat (GetAlignedSize (arrayLayers d) 6) \<and>
      unat (GetAlignedSize (arrayLayers d) 6) < unat (arrayLayers d) + 6"
    using round_up_6 [of "unat (arrayLayers d)"] by (simp add: GetAlignedSize_6)
  ultimately show "\<exists>e. GetMipExtent_desc E d L = Some e \<and>
      ext_z e = GetAlignedSize (arrayLayers d) 6 \<and>
      (unat (arrayLayers d) \<le> 4294967292 \<longrightarrow>
         6 dvd unat (ext_z e) \<and> unat (arrayLayers d) \<le> unat (ext_z e) \<and>
         unat (ext_z e) < unat (arrayLayers d) + 6)"
    by simp
next
  assume "desc_type d = TextureCube \<and>
    NumMipLevels_type E (desc_type d) (desc_extent d) = Some n \<and> L < n"
  then have t: "desc_type d = TextureCube"
    and nm: "NumMipLevels_type E TextureCube (desc_extent d) = Some n" and ln: "L < n"
    by auto
  have "GetMipExtent_desc E d L =
      Some (GetMipExtent_desc_switch TextureCube (desc_extent d) (arrayLayers d) L)"
    unfolding GetMipExtent_desc_def Let_def t nm using ln by simp
  then show "\<exists>e. GetMipExtent_desc E d L = Some e \<and> ext_z e = 6"
    by simp
qed

text \<open>A multisample descriptor, a cube array with 7 layers (12 after rounding) and a cube,
  all of extent \<open>(64, 64, 1)\<close>, the last two at MIP level 2.\<close>

theorem texture_descriptor_mips_and_layers_witness:
  "IsMultiSampleTexture Texture2DMS \<and>
   NumMipLevels_desc exact_externals
     \<lparr>desc_type = Texture2DMS, desc_extent = \<lparr>ext_x = 64, ext_y = 64, ext_z = 1\<rparr>,
      arrayLayers = 1, mipLevels = 0\<rparr> = Some 1 \<and>
   NumMipLevels_type exact_externals TextureCubeArray \<lparr>ext_x = 64, ext_y = 64, ext_z = 1\<rparr> = Some 7 \<and>
   NumMipLevels_type exact_externals TextureCube \<lparr>ext_x = 64, ext_y = 64, ext_z = 1\<rparr> = Some 7 \<and>
   (2::u32) < 7 \<and> unat (7::u32) \<le> 4294967292 \<and>
   (\<exists>e. GetMipExtent_desc exact_externals
      \<lparr>desc_type = TextureCubeArray, desc_extent = \<lparr>ext_x = 64, ext_y = 64, ext_z = 1\<rparr>,
       arrayLayers = 7, mipLevels = 0\<rparr> 2 = Some e \<and> ext_z e = 12 \<and> 6 dvd unat (ext_z e)) \<and>
   (\<exists>e. GetMipExtent_desc exact_externals
      \<lparr>desc_type = TextureCube, desc_extent = \<lparr>ext_x = 64, ext_y = 64, ext_z = 1\<rparr>,
       arrayLayers = 1, mipLevels = 0\<rparr> 2 = Some e \<and> ext_z e = 6)"
proof -
  let ?e = "\<lparr>ext_x = 64, ext_y = 64, ext_z = 1\<rparr> :: Extent3D"
  let ?ms = "\<lparr>desc_type = Texture2DMS, desc_extent = ?e, arrayLayers = 1, mipLevels = 0\<rparr>"
  let ?ca = "\<lparr>desc_type = TextureCubeArray, desc_extent = ?e, arrayLayers = 7, mipLevels = 0\<rparr>"
  let ?cu = "\<lparr>desc_type = TextureCube, desc_extent = ?e, arrayLayers = 1, mipLevels = 0\<rparr>"
  have n: "NumMipLevels exact_externals 64 64 1 = Some 7"
    by (simp add: NumMipLevels_def double_to_u32_def exact_externals_def log2_64)
  have d: "default_depth exact_externals = 1"
    by (simp add: exact_externals_def)
  have a: "GetAlignedSize 7 6 = 12"
    by (simp add: GetAlignedSize_def)
  have l: "(2::u32) < 7" by simp
  have ms: "NumMipLevels_desc exact_externals ?ms = Some 1"
    using texture_descriptor_mips_and_layers [of ?ms exact_externals] by simp
  have ca: "\<exists>e. GetMipExtent_desc exact_externals ?ca 2 = Some e \<and> ext_z e = 12 \<and>
      6 dvd unat (ext_z e)"
    using texture_descriptor_mips_and_layers [of ?ca exact_externals 7 2] n d a l by auto
  have cu: "\<exists>e. GetMipExtent_desc exact_externals ?cu 2 = Some e \<and> ext_z e = 6"
    using texture_descriptor_mips_and_layers [of ?cu exact_externals 7 2] n d l by auto
  from ms ca cu n d show ?thesis by simp
qed

section \<open>Properties of the UTF-8 string container\<close>

text \<open>Every string that can be built holds at least its NUL, as its last element.\<close>

lemma constructible_last_NUL: "constructible s \<Longrightarrow> data s \<noteq> [] \<and> last (data s) = 0"
  by (induction rule: constructible.induct)
     (auto simp: UTF8String_default_def UTF8String_StringView_def UTF8String_WStringView_def
        ConvertStringViewToCharArray_def ConvertWStringViewToUTF8CharArray_def
        UTF8String_copy_def UTF8String_move_def clear_def resize_def append_fill_def
        append_range_def assign_copy_def assign_move_def)

text \<open>
  C5. After any sequence of \<^verbatim>\<open>append\<close>, \<^verbatim>\<open>resize\<close>, \<^verbatim>\<open>clear\<close> and copy or move
  assignments on constructed strings, the length of the internal buffer is \<^verbatim>\<open>size() + 1\<close>
  and \<^verbatim>\<open>c_str()[size()]\<close> is NUL.
\<close>

theorem UTF8String_invariant:
  assumes "constructible s"
  shows "length (data s) = size_UTF8 s + 1 \<and> c_str s ! size_UTF8 s = 0"
proof -
  from constructible_last_NUL [OF assms]
  have ne: "data s \<noteq> []" and l: "last (data s) = 0" by simp_all
  from ne have "length (data s) = size_UTF8 s + 1"
    by (simp add: size_UTF8_def Suc_leI)
  moreover have "c_str s ! size_UTF8 s = 0"
  proof -
    have "last (data s) = data s ! (length (data s) - 1)"
      using ne by (rule last_conv_nth)
    with ne l show ?thesis
      by (simp add: size_UTF8_def c_str_def)
  qed
  ultimately show ?thesis by simp
qed

text \<open>The string "ab" resized to one byte, then "cd" appended: "acd" and its NUL.\<close>

theorem UTF8String_invariant_witness:
  "constructible (append_range (resize (UTF8String_StringView [0x61, 0x62]) 1 0) [0x63, 0x64]) \<and>
   length (data (append_range (resize (UTF8String_StringView [0x61, 0x62]) 1 0) [0x63, 0x64])) = 4 \<and>
   size_UTF8 (append_range (resize (UTF8String_StringView [0x61, 0x62]) 1 0) [0x63, 0x64]) = 3 \<and>
   c_str (append_range (resize (UTF8String_StringView [0x61, 0x62]) 1 0) [0x63, 0x64]) ! 3 = 0"
proof -
  have c: "constructible (append_range (resize (UTF8String_StringView [0x61, 0x62]) 1 0) [0x63, 0x64])"
    by (intro constructible.intros)
  have sz: "size_UTF8 (append_range (resize (UTF8String_StringView [0x61, 0x62]) 1 0) [0x63, 0x64]) = 3"
    by (simp add: append_range_def resize_def UTF8String_StringView_def
        ConvertStringViewToCharArray_def size_UTF8_def SmallVector_resize_def)
  from UTF8String_invariant [OF c] c sz show ?thesis by simp
qed

text \<open>
  C10. For every string \<open>s\<close> and position \<open>pos\<close>: if \<open>pos > s.size()\<close>,
  \<^verbatim>\<open>substr(pos, count)\<close> traps, and in no other case; otherwise it returns the string of the
  \<open>min(count, s.size() - pos)\<close> bytes that start at \<open>pos\<close>, so a count beyond the end is
  clamped.
\<close>

theorem substr_clamps_or_traps:
  assumes "constructible s"
  shows "(pos > size_UTF8 s \<longrightarrow>
            substr s pos count = Inl (Trap ''start position for UTF8 string out of range''))
       \<and> (pos \<le> size_UTF8 s \<longrightarrow>
            (\<exists>r. substr s pos count = Inr r
               \<and> size_UTF8 r = min count (size_UTF8 s - pos)
               \<and> data r = take (min count (size_UTF8 s - pos))
                            (drop pos (take (size_UTF8 s) (data s))) @ [0]))"
proof -
  from constructible_last_NUL [OF assms] have ne: "data s \<noteq> []" by simp
  then have len: "length (data s) = size_UTF8 s + 1"
    by (simp add: size_UTF8_def Suc_leI)
  have "take (min count (size_UTF8 s - pos)) (drop pos (data s))
      = take (min count (size_UTF8 s - pos)) (drop pos (take (size_UTF8 s) (data s)))"
    if "pos \<le> size_UTF8 s"
    using that by (simp add: drop_take min_def)
  then show ?thesis
    using len by (auto simp: substr_def Let_def UTF8String_StringView_def
        ConvertStringViewToCharArray_def size_UTF8_def [of "\<lparr>data = _\<rparr>"])
qed

text \<open>On "abc": from position 1 a count of 10 gives "bc"; position 3 gives the empty string;
  position 4 traps.\<close>

theorem substr_clamps_or_traps_witness:
  "constructible (UTF8String_StringView [0x61, 0x62, 0x63]) \<and>
   size_UTF8 (UTF8String_StringView [0x61, 0x62, 0x63]) = 3 \<and>
   substr (UTF8String_StringView [0x61, 0x62, 0x63]) 1 10 = Inr \<lparr>data = [0x62, 0x63, 0]\<rparr> \<and>
   substr (UTF8String_StringView [0x61, 0x62, 0x63]) 3 10 = Inr \<lparr>data = [0]\<rparr> \<and>
   substr (UTF8String_StringView [0x61, 0x62, 0x63]) 4 10
     = Inl (Trap ''start position for UTF8 string out of range'')"
proof -
  let ?s = "UTF8String_StringView [0x61, 0x62, 0x63]"
  have c: "constructible ?s" by (rule constructible.intros)
  have sz: "size_UTF8 ?s = 3"
    by (simp add: UTF8String_StringView_def ConvertStringViewToCharArray_def size_UTF8_def)
  have d: "data ?s = [0x61, 0x62, 0x63, 0]"
    by (simp add: UTF8String_StringView_def ConvertStringViewToCharArray_def)
  from substr_clamps_or_traps [OF c, of 1 10] sz d
  have "substr ?s 1 10 = Inr \<lparr>data = [0x62, 0x63, 0]\<rparr>" by auto
  moreover from substr_clamps_or_traps [OF c, of 3 10] sz d
  have "substr ?s 3 10 = Inr \<lparr>data = [0]\<rparr>" by auto
  moreover from substr_clamps_or_traps [OF c, of 4 10] sz
  have "substr ?s 4 10 = Inl (Trap ''start position for UTF8 string out of range'')" by simp
  ultimately show ?thesis using c sz by simp
qed

subsection \<open>Encoding and decoding\<close>

lemma numeral_masks:
  "(128::int) = push_bit 7 (mask 1)"
  "(224::int) = push_bit 5 (mask 3)"
  "(240::int) = push_bit 4 (mask 4)"
  "(192::int) = push_bit 6 (mask 2)"
  "(15::int) = mask 4"
  "(63::int) = mask 6"
  by (simp_all add: mask_eq_exp_minus_1 push_bit_eq_mult)

lemma bit_128: "bit (128::int) n \<longleftrightarrow> n = 7"
  using bit_exp_iff [where ?'a = int, of 7 n] by simp

text \<open>The three-byte case of the decoder puts together what the encoder took apart.\<close>

lemma recombine3:
  assumes "0 \<le> c" "c < 65536"
  shows "push_bit 12 (take_bit 4 (drop_bit 12 c)) OR push_bit 6 (take_bit 6 (drop_bit 6 c)) OR take_bit 6 c = (c::int)"
proof -
  have "take_bit 16 c = c" using assms by (simp add: take_bit_int_eq_self)
  moreover have "push_bit 12 (take_bit 4 (drop_bit 12 c)) OR push_bit 6 (take_bit 6 (drop_bit 6 c)) OR take_bit 6 c = take_bit 16 c"
  proof (rule bit_eqI)
    fix n
    show "bit (push_bit 12 (take_bit 4 (drop_bit 12 c)) OR push_bit 6 (take_bit 6 (drop_bit 6 c)) OR take_bit 6 c) n
      = bit (take_bit 16 c) n"
      by (cases "n < 6"; cases "n < 12"; cases "n < 16") (auto simp: bit_simps)
  qed
  ultimately show ?thesis by simp
qed

lemma cont_byte:
  "sint (word_of_int (128 OR (x AND 63)) :: byte) AND 63 = take_bit 6 (x::int)"
  unfolding numeral_masks(5,6)
  by (rule bit_eqI) (auto simp: bit_simps bit_128)

lemma lead3_uint:
  "uint (word_of_int (224 OR (x AND 15)) :: byte) = push_bit 5 (mask 3) OR take_bit 4 (x::int)"
  unfolding numeral_masks
  by (rule bit_eqI) (auto simp: bit_simps)

lemma lead3_tests:
  fixes t :: int
  shows "(push_bit 5 (mask 3) OR take_bit 4 t) AND 128 \<noteq> 0"
    and "(push_bit 5 (mask 3) OR take_bit 4 t) AND 224 \<noteq> 192"
    and "(push_bit 5 (mask 3) OR take_bit 4 t) AND 240 = 224"
    and "(push_bit 5 (mask 3) OR take_bit 4 t) AND 15 = take_bit 4 t"
proof -
  let ?v = "push_bit 5 (mask 3) OR take_bit 4 t"
  have "bit (?v AND 128) 7" unfolding numeral_masks by (simp add: bit_simps)
  then show "?v AND 128 \<noteq> 0" by auto
  have "bit (?v AND 224) 5" unfolding numeral_masks by (simp add: bit_simps)
  moreover have "\<not> bit (192::int) 5" by simp
  ultimately show "?v AND 224 \<noteq> 192" by metis
  show "?v AND 240 = 224" unfolding numeral_masks
    by (rule bit_eqI) (auto simp: bit_simps)
  show "?v AND 15 = take_bit 4 t" unfolding numeral_masks
    by (rule bit_eqI) (auto simp: bit_simps)
qed

lemma ascii_byte:
  assumes "0 \<le> c" "c < 128"
  shows "uint (word_of_int c :: byte) = c" and "c AND 128 = 0"
proof -
  have t: "take_bit 7 c = c" using assms by (simp add: take_bit_int_eq_self)
  show "uint (word_of_int c :: byte) = c"
    using assms by (simp add: uint_word_of_int take_bit_int_eq_self)
  have "take_bit 7 c AND 128 = 0"
    by (rule bit_eqI) (auto simp: bit_simps bit_128)
  with t show "c AND 128 = 0" by simp
qed


lemma AppendUTF8Character_append:
  "AppendUTF8Character str code = str @ AppendUTF8Character [] code"
  by (simp add: AppendUTF8Character_def)

lemma foldl_AppendUTF8Character:
  "foldl AppendUTF8Character str s = str @ concat (map (AppendUTF8Character []) s)"
proof (induction s arbitrary: str)
  case Nil
  then show ?case by simp
next
  case (Cons c s)
  show ?case
    by (simp add: Cons.IH [of "AppendUTF8Character str c"])
       (simp add: AppendUTF8Character_append [of str c])
qed

lemma decode_one_byte:
  assumes "0 \<le> c" "c < 0x80"
  shows "ConvertToUTF16_loop (AppendUTF8Character [] c @ it) utf16
       = ConvertToUTF16_loop it (utf16 @ [c])"
  using assms ascii_byte [OF assms]
  by (simp add: AppendUTF8Character_def)

lemma decode_three_bytes:
  assumes "0x7FF \<le> c" "c < 0xFFFF"
  shows "ConvertToUTF16_loop (AppendUTF8Character [] c @ it) utf16
       = ConvertToUTF16_loop it (utf16 @ [c])"
proof -
  have c: "0 \<le> c" "c < 65536" using assms by simp_all
  have enc: "AppendUTF8Character [] c =
      [word_of_int (224 OR (drop_bit 12 c AND 15)),
       word_of_int (128 OR (drop_bit 6 c AND 63)),
       word_of_int (128 OR (c AND 63))]"
    using assms by (simp add: AppendUTF8Character_def)
  show ?thesis
    unfolding enc
    by (simp add: lead3_uint lead3_tests cont_byte recombine3 [OF c] Let_def)
qed

text \<open>Wide strings of code points that are encoded in one byte (below \<open>U+0080\<close>) or in three
  (\<open>U+07FF\<close> to \<open>U+FFFE\<close>) do come back from \<^verbatim>\<open>to_utf16()\<close>, with the NUL appended.\<close>

lemma to_utf16_roundtrip_one_and_three_bytes:
  assumes "\<forall>c \<in> set s. (0 \<le> c \<and> c < 0x80) \<or> (0x7FF \<le> c \<and> c < 0xFFFF)"
  shows "to_utf16 (UTF8String_WStringView s) = Inr (s @ [0])"
proof -
  have loop: "ConvertToUTF16_loop (concat (map (AppendUTF8Character []) s)) utf16 = Inr (utf16 @ s)"
    for utf16
    using assms
  proof (induction s arbitrary: utf16)
    case Nil
    then show ?case by simp
  next
    case (Cons c s)
    from Cons.prems have "(0 \<le> c \<and> c < 0x80) \<or> (0x7FF \<le> c \<and> c < 0xFFFF)" by simp
    then have "ConvertToUTF16_loop (AppendUTF8Character [] c @ concat (map (AppendUTF8Character []) s)) utf16
        = ConvertToUTF16_loop (concat (map (AppendUTF8Character []) s)) (utf16 @ [c])"
      using decode_one_byte decode_three_bytes by blast
    with Cons.IH [of "utf16 @ [c]"] Cons.prems show ?case by simp
  qed
  have "take (size_UTF8 (UTF8String_WStringView s)) (c_str (UTF8String_WStringView s))
      = concat (map (AppendUTF8Character []) s)"
    by (simp add: size_UTF8_def c_str_def UTF8String_WStringView_def
        ConvertWStringViewToUTF8CharArray_def foldl_AppendUTF8Character)
  then show ?thesis
    by (simp add: to_utf16_def ConvertToUTF16WCharArray_def loop)
qed

lemma numeral_31: "(31::int) = mask 5"
  by (simp add: mask_eq_exp_minus_1)

lemma lead2_uint:
  "uint (word_of_int (192 OR (x AND 31)) :: byte) = push_bit 6 (mask 2) OR take_bit 5 (x::int)"
  unfolding numeral_masks numeral_31
  by (rule bit_eqI) (auto simp: bit_simps)

lemma lead2_tests:
  fixes t :: int
  shows "(push_bit 6 (mask 2) OR take_bit 5 t) AND 128 \<noteq> 0"
    and "(push_bit 6 (mask 2) OR take_bit 5 t) AND 224 = 192"
    and "(push_bit 6 (mask 2) OR take_bit 5 t) AND 31 = take_bit 5 t"
proof -
  let ?v = "push_bit 6 (mask 2) OR take_bit 5 t"
  have "bit (?v AND 128) 7" by (simp add: bit_simps bit_128)
  then show "?v AND 128 \<noteq> 0" by auto
  show "?v AND 224 = 192" unfolding numeral_masks
    by (rule bit_eqI) (auto simp: bit_simps)
  show "?v AND 31 = take_bit 5 t" unfolding numeral_31
    by (rule bit_eqI) (auto simp: bit_simps)
qed

text \<open>The two-byte case does not: the lead bits come back shifted by 5, and the value differs
  from every code point that is encoded in two bytes (\<open>U+0080\<close> to \<open>U+07FE\<close>).\<close>

lemma decode_two_bytes:
  assumes "0x80 \<le> c" "c < 0x7FF"
  shows "ConvertToUTF16_loop (AppendUTF8Character [] c @ it) utf16
       = ConvertToUTF16_loop it (utf16 @ [push_bit 5 (take_bit 5 (drop_bit 6 c)) OR take_bit 6 c])"
proof -
  have enc: "AppendUTF8Character [] c =
      [word_of_int (192 OR (drop_bit 6 c AND 31)),
       word_of_int (128 OR (c AND 63))]"
    using assms by (simp add: AppendUTF8Character_def)
  show ?thesis
    unfolding enc
    by (simp add: lead2_uint lead2_tests cont_byte Let_def)
qed

lemma two_byte_value_differs:
  assumes "0x80 \<le> c" "c < 0x7FF"
  shows "push_bit 5 (take_bit 5 (drop_bit 6 c)) OR take_bit 6 c \<noteq> (c::int)"
proof
  assume eq: "push_bit 5 (take_bit 5 (drop_bit 6 c)) OR take_bit 6 c = c"
  let ?h = "take_bit 5 (drop_bit 6 c)"
  let ?l = "take_bit 6 c"
  have h: "?h = c div 64"
    using assms by (simp add: take_bit_int_eq_self drop_bit_eq_div)
  have l: "?l = c mod 64" by (simp add: take_bit_eq_mod)
  have "0 \<le> push_bit 5 ?h AND ?l" by simp
  moreover have "(push_bit 5 ?h AND ?l) + (push_bit 5 ?h OR ?l) = push_bit 5 ?h + ?l"
    by (rule plus_and_or)
  ultimately have "push_bit 5 ?h OR ?l \<le> push_bit 5 ?h + ?l" by linarith
  with eq have "c \<le> 32 * (c div 64) + c mod 64"
    by (simp add: h l push_bit_eq_mult)
  with assms show False by presburger
qed

lemma to_utf16_two_bytes_differs:
  assumes "0x80 \<le> c" "c < 0x7FF"
  shows "\<exists>v. to_utf16 (UTF8String_WStringView [c]) = Inr [v, 0] \<and> v \<noteq> c"
proof -
  have "AppendUTF8Character [] c \<noteq> []"
    by (simp add: AppendUTF8Character_def)
  then have "take (size_UTF8 (UTF8String_WStringView [c])) (c_str (UTF8String_WStringView [c]))
      = AppendUTF8Character [] c @ []"
    by (simp add: size_UTF8_def c_str_def UTF8String_WStringView_def
        ConvertWStringViewToUTF8CharArray_def)
  then have "to_utf16 (UTF8String_WStringView [c])
      = Inr [push_bit 5 (take_bit 5 (drop_bit 6 c)) OR take_bit 6 c, 0]"
    by (simp only: to_utf16_def ConvertToUTF16WCharArray_def decode_two_bytes [OF assms]) simp
  with two_byte_value_differs [OF assms] show ?thesis by blast
qed

text \<open>
  C1. For every wide string whose code points all lie in \<open>[U+0000, U+FFFF]\<close>, constructing a
  string from it and converting back with \<^verbatim>\<open>to_utf16()\<close> yields the original code points.
  The code does not do so: \<open>U+0080\<close> comes back as \<open>U+0040\<close> (the two-byte case of
  \<^verbatim>\<open>ConvertToUTF16WCharArray\<close> shifts the lead bits by 5, where \<^verbatim>\<open>AppendUTF8Character\<close>
  shifted them by 6), and \<open>U+FFFF\<close> is encoded in four bytes (the three-byte case is bounded
  by \<^verbatim>\<open>code < 0xFFFF\<close>, under the comment \<^verbatim>\<open>U+0800 ... U+FFFF\<close>), on which the decoder
  traps. The letter A and the euro sign \<open>U+20AC\<close> do come back, as every code point of one
  or three bytes does (\<open>to_utf16_roundtrip_one_and_three_bytes\<close>); no code point of two bytes
  does (\<open>to_utf16_two_bytes_differs\<close>).
\<close>

theorem to_utf16_roundtrip_fails:
  "to_utf16 (UTF8String_WStringView [0x80]) = Inr [0x40, 0] \<and>
   to_utf16 (UTF8String_WStringView [0xFFFF])
     = Inl (Trap ''UTF8 character bigger than two bytes'') \<and>
   to_utf16 (UTF8String_WStringView [0x41, 0x20AC]) = Inr [0x41, 0x20AC, 0]"
  by (simp add: to_utf16_def UTF8String_WStringView_def ConvertWStringViewToUTF8CharArray_def
      AppendUTF8Character_def size_UTF8_def c_str_def ConvertToUTF16WCharArray_def)

section \<open>Properties of the display modes\<close>

lemma sorted_map_remdups: "sorted (map f xs) \<Longrightarrow> sorted (map f (remdups xs))"
  by (induction xs) auto

text \<open>
  C7. The list returned by \<^verbatim>\<open>GetSupportedDisplayModes\<close> is sorted ascending by the pair
  (resolution width times resolution height, refresh rate) and holds no mode twice: for the
  Linux display, whatever sizes and rates the X server reports, and for the Android display,
  whose list is the current mode alone. The Linux list holds exactly the modes of the reported
  sizes and rates.
\<close>

theorem GetSupportedDisplayModes_sorted_distinct:
  "sorted_wrt
     (\<lambda>a b. unat (width (resolution a)) * unat (height (resolution a))
                < unat (width (resolution b)) * unat (height (resolution b))
            \<or> (unat (width (resolution a)) * unat (height (resolution a))
                  = unat (width (resolution b)) * unat (height (resolution b))
               \<and> unat (refreshRate a) \<le> unat (refreshRate b)))
     (LinuxDisplay_GetSupportedDisplayModes X)
   \<and> distinct (LinuxDisplay_GetSupportedDisplayModes X)
   \<and> set (LinuxDisplay_GetSupportedDisplayModes X) = set (push_sizes X 0 (XRRSizes X) [])
   \<and> sorted_wrt
     (\<lambda>a b. unat (width (resolution a)) * unat (height (resolution a))
                < unat (width (resolution b)) * unat (height (resolution b))
            \<or> (unat (width (resolution a)) * unat (height (resolution a))
                  = unat (width (resolution b)) * unat (height (resolution b))
               \<and> unat (refreshRate a) \<le> unat (refreshRate b)))
     (AndroidDisplay_GetSupportedDisplayModes window)
   \<and> distinct (AndroidDisplay_GetSupportedDisplayModes window)"
proof -
  let ?r = "LinuxDisplay_GetSupportedDisplayModes X"
  have le: "displayMode_key a \<le> displayMode_key b \<longleftrightarrow>
      unat (width (resolution a)) * unat (height (resolution a))
        < unat (width (resolution b)) * unat (height (resolution b))
      \<or> (unat (width (resolution a)) * unat (height (resolution a))
            = unat (width (resolution b)) * unat (height (resolution b))
          \<and> unat (refreshRate a) \<le> unat (refreshRate b))" for a b
    by (auto simp: displayMode_key_def)
  have "sorted (map displayMode_key ?r)"
    by (simp add: LinuxDisplay_GetSupportedDisplayModes_def FinalizeDisplayModes_def
        sorted_map_remdups)
  then have "sorted_wrt (\<lambda>a b. displayMode_key a \<le> displayMode_key b) ?r"
    by (simp add: sorted_map)
  then have "sorted_wrt
     (\<lambda>a b. unat (width (resolution a)) * unat (height (resolution a))
                < unat (width (resolution b)) * unat (height (resolution b))
            \<or> (unat (width (resolution a)) * unat (height (resolution a))
                  = unat (width (resolution b)) * unat (height (resolution b))
               \<and> unat (refreshRate a) \<le> unat (refreshRate b))) ?r"
    by (simp only: le)
  then show ?thesis
    by (simp add: LinuxDisplay_GetSupportedDisplayModes_def FinalizeDisplayModes_def
        AndroidDisplay_GetSupportedDisplayModes_def)
qed

text \<open>The X server with the sizes 1920x1080 (at 60 and 50 Hz) and 1280x720 (at 60 Hz).\<close>

theorem GetSupportedDisplayModes_sorted_distinct_witness:
  "LinuxDisplay_GetSupportedDisplayModes two_sizes =
     [\<lparr>resolution = \<lparr>width = 1280, height = 720\<rparr>, refreshRate = 60\<rparr>,
      \<lparr>resolution = \<lparr>width = 1920, height = 1080\<rparr>, refreshRate = 50\<rparr>,
      \<lparr>resolution = \<lparr>width = 1920, height = 1080\<rparr>, refreshRate = 60\<rparr>] \<and>
   distinct (LinuxDisplay_GetSupportedDisplayModes two_sizes)"
proof -
  have "LinuxDisplay_GetSupportedDisplayModes two_sizes =
     [\<lparr>resolution = \<lparr>width = 1280, height = 720\<rparr>, refreshRate = 60\<rparr>,
      \<lparr>resolution = \<lparr>width = 1920, height = 1080\<rparr>, refreshRate = 50\<rparr>,
      \<lparr>resolution = \<lparr>width = 1920, height = 1080\<rparr>, refreshRate = 60\<rparr>]"
    by (simp add: LinuxDisplay_GetSupportedDisplayModes_def FinalizeDisplayModes_def
        two_sizes_def displayMode_key_def)
  with GetSupportedDisplayModes_sorted_distinct [of two_sizes None] show ?thesis
    by (simp only:)
qed

subsection \<open>Setting a display mode\<close>

lemma SetDisplayMode_loop_no_match:
  "\<forall>scrSize \<in> set sizes. \<not> resolution_matches m scrSize \<Longrightarrow>
   SetDisplayMode_loop X m i sizes st = (False, st)"
  by (induction sizes arbitrary: i) auto

text \<open>The loop either returns false with the state as it was, or returns what one request
  for a size of the requested resolution gave.\<close>

lemma SetDisplayMode_loop_cases:
  "SetDisplayMode_loop X m i sizes st = (False, st) \<or>
   (\<exists>j < length sizes. resolution_matches m (sizes ! j) \<and> XRRGetScreenInfo X st \<and>
      SetDisplayMode_loop X m i sizes st =
        (fst (XRRSetScreenConfig X (i + j) st) \<noteq> 0, snd (XRRSetScreenConfig X (i + j) st)))"
proof (induction sizes arbitrary: i)
  case Nil
  then show ?case by simp
next
  case (Cons a sizes)
  show ?case
  proof (cases "resolution_matches m a \<and> XRRGetScreenInfo X st")
    case True
    then have "\<exists>j < length (a # sizes). resolution_matches m ((a # sizes) ! j) \<and>
        XRRGetScreenInfo X st \<and>
        SetDisplayMode_loop X m i (a # sizes) st =
          (fst (XRRSetScreenConfig X (i + j) st) \<noteq> 0, snd (XRRSetScreenConfig X (i + j) st))"
      by (intro exI [of _ 0]) (simp add: case_prod_beta)
    then show ?thesis by blast
  next
    case False
    then have eq: "SetDisplayMode_loop X m i (a # sizes) st =
        SetDisplayMode_loop X m (i + 1) sizes st"
      by auto
    from Cons.IH [of "i + 1"] show ?thesis
    proof
      assume "SetDisplayMode_loop X m (i + 1) sizes st = (False, st)"
      with eq show ?thesis by simp
    next
      assume "\<exists>j<length sizes. resolution_matches m (sizes ! j) \<and> XRRGetScreenInfo X st \<and>
        SetDisplayMode_loop X m (i + 1) sizes st =
          (fst (XRRSetScreenConfig X (i + 1 + j) st) \<noteq> 0,
           snd (XRRSetScreenConfig X (i + 1 + j) st))"
      then obtain j where j: "j < length sizes" "resolution_matches m (sizes ! j)"
        "XRRGetScreenInfo X st"
        "SetDisplayMode_loop X m (i + 1) sizes st =
          (fst (XRRSetScreenConfig X (i + 1 + j) st) \<noteq> 0,
           snd (XRRSetScreenConfig X (i + 1 + j) st))"
        by blast
      then have "Suc j < length (a # sizes) \<and> resolution_matches m ((a # sizes) ! Suc j) \<and>
        XRRGetScreenInfo X st \<and>
        SetDisplayMode_loop X m i (a # sizes) st =
          (fst (XRRSetScreenConfig X (i + Suc j) st) \<noteq> 0,
           snd (XRRSetScreenConfig X (i + Suc j) st))"
        using eq by simp
      then show ?thesis by blast
    qed
  qed
qed

text \<open>
  What the code does guarantee. For a display mode whose resolution is none of the screen
  sizes that the X server reports, \<^verbatim>\<open>LinuxDisplay::SetDisplayMode\<close> returns false and leaves
  the state of the display as it was. Any other result is what one \<^verbatim>\<open>XRRSetScreenConfig\<close>
  request gave, for a size index whose size is the requested resolution; the refresh rate of
  the mode is never read. The Android display returns false and changes nothing for every
  mode.
\<close>

lemma SetDisplayMode_no_matching_size:
  "((\<forall>scrSize \<in> set (XRRSizes X). \<not> resolution_matches displayMode scrSize) \<longrightarrow>
      LinuxDisplay_SetDisplayMode X displayMode st = (False, st))
   \<and> (LinuxDisplay_SetDisplayMode X displayMode st = (False, st) \<or>
       (\<exists>i < length (XRRSizes X).
          resolution_matches displayMode (XRRSizes X ! i) \<and> XRRGetScreenInfo X st \<and>
          LinuxDisplay_SetDisplayMode X displayMode st =
            (fst (XRRSetScreenConfig X i st) \<noteq> 0, snd (XRRSetScreenConfig X i st))))
   \<and> AndroidDisplay_SetDisplayMode displayMode st = (False, st)"
  using SetDisplayMode_loop_no_match [of "XRRSizes X" displayMode X 0 st]
    SetDisplayMode_loop_cases [of X displayMode 0 "XRRSizes X" st]
  by (simp add: LinuxDisplay_SetDisplayMode_def AndroidDisplay_SetDisplayMode_def)

text \<open>The X server with the sizes 1920x1080 and 1280x720, using size 0, asked for 800x600.\<close>

lemma SetDisplayMode_no_matching_size_example:
  "\<not> resolution_matches \<lparr>resolution = \<lparr>width = 800, height = 600\<rparr>, refreshRate = 60\<rparr> (1920, 1080) \<and>
   \<not> resolution_matches \<lparr>resolution = \<lparr>width = 800, height = 600\<rparr>, refreshRate = 60\<rparr> (1280, 720) \<and>
   LinuxDisplay_SetDisplayMode two_sizes
     \<lparr>resolution = \<lparr>width = 800, height = 600\<rparr>, refreshRate = 60\<rparr> 0 = (False, 0)"
proof -
  let ?m = "\<lparr>resolution = \<lparr>width = 800, height = 600\<rparr>, refreshRate = 60\<rparr>"
  have a: "\<not> resolution_matches ?m (1920, 1080)" and b: "\<not> resolution_matches ?m (1280, 720)"
    by (simp_all add: resolution_matches_def)
  then have "\<forall>scrSize \<in> set (XRRSizes two_sizes). \<not> resolution_matches ?m scrSize"
    by (simp add: two_sizes_def)
  with SetDisplayMode_no_matching_size [of two_sizes ?m 0] a b show ?thesis by blast
qed

text \<open>
  C8. For every display mode that the display does not support, \<^verbatim>\<open>SetDisplayMode\<close> returns
  false and leaves the state of the display as it was; Display.h says of the call: true on
  success, otherwise the mode is not supported by this display and the function has no
  effect. The code does not do so for a mode whose resolution is supported at other refresh
  rates only. On the X server with the sizes 1920x1080 (at 60 and 50 Hz) and 1280x720 (at
  60 Hz), now using 1280x720 (size index 1), the mode 1920x1080 at 75 Hz is not among the
  supported display modes (nor among the modes listed before they are sorted); \<^verbatim>\<open>LinuxDisplay::SetDisplayMode\<close> finds the resolution at size
  index 0, never reads the refresh rate, sends \<^verbatim>\<open>XRRSetScreenConfig\<close> for that index, which
  the server carries out (the state becomes 0), and returns \<^verbatim>\<open>status != 0\<close>, false for
  the status 0 of a request carried out.
\<close>

theorem SetDisplayMode_unsupported_rate_applied:
  "\<lparr>resolution = \<lparr>width = 1920, height = 1080\<rparr>, refreshRate = 75\<rparr>
     \<notin> set (LinuxDisplay_GetSupportedDisplayModes two_sizes) \<and>
   \<lparr>resolution = \<lparr>width = 1920, height = 1080\<rparr>, refreshRate = 75\<rparr>
     \<notin> set (push_sizes two_sizes 0 (XRRSizes two_sizes) []) \<and>
   LinuxDisplay_SetDisplayMode two_sizes
     \<lparr>resolution = \<lparr>width = 1920, height = 1080\<rparr>, refreshRate = 75\<rparr> 1 = (False, 0)"
proof -
  have "\<lparr>resolution = \<lparr>width = 1920, height = 1080\<rparr>, refreshRate = 75\<rparr>
     \<notin> set (push_sizes two_sizes 0 (XRRSizes two_sizes) [])"
    by (simp add: two_sizes_def)
  moreover
  have "LinuxDisplay_GetSupportedDisplayModes two_sizes =
     [\<lparr>resolution = \<lparr>width = 1280, height = 720\<rparr>, refreshRate = 60\<rparr>,
      \<lparr>resolution = \<lparr>width = 1920, height = 1080\<rparr>, refreshRate = 50\<rparr>,
      \<lparr>resolution = \<lparr>width = 1920, height = 1080\<rparr>, refreshRate = 60\<rparr>]"
    by (simp add: LinuxDisplay_GetSupportedDisplayModes_def FinalizeDisplayModes_def
        two_sizes_def displayMode_key_def)
  moreover have "LinuxDisplay_SetDisplayMode two_sizes
     \<lparr>resolution = \<lparr>width = 1920, height = 1080\<rparr>, refreshRate = 75\<rparr> 1 = (False, 0)"
    by (simp add: LinuxDisplay_SetDisplayMode_def two_sizes_def resolution_matches_def)
  ultimately show ?thesis by simp
qed

section \<open>Properties of the sample count\<close>

text \<open>With an EGL implementation that has a configuration without multisampling and, for a
  sample count of 2 or more, one exactly up to \<open>M\<close> samples, the loop from \<open>n \<ge> 1\<close> stops
  at the smaller of \<open>n\<close> and \<open>M\<close>.\<close>

lemma SelectConfig_loop_threshold:
  assumes "1 \<le> M" and "eglChooseConfig (depthBits p) (stencilBits p) None"
    and "\<forall>k \<ge> 2. eglChooseConfig (depthBits p) (stencilBits p) (Some k) \<longleftrightarrow> k \<le> M"
    and "1 \<le> n"
  shows "SelectConfig_loop eglChooseConfig p n = (True, min n M)"
  using assms(4)
proof (induction "nat n" arbitrary: n)
  case 0
  then show ?case by simp
next
  case (Suc k)
  show ?case
  proof (cases "n \<le> 1")
    case True
    with Suc.prems have "n = 1" by simp
    with assms(1,2) show ?thesis by (simp add: min_def)
  next
    case False
    then have n2: "2 \<le> n" by simp
    show ?thesis
    proof (cases "n \<le> M")
      case True
      with n2 assms(3) have "eglChooseConfig (depthBits p) (stencilBits p) (Some n)" by simp
      with n2 True show ?thesis by (simp add: min_def)
    next
      case False
      with n2 assms(3) have "\<not> eglChooseConfig (depthBits p) (stencilBits p) (Some n)" by simp
      moreover have "SelectConfig_loop eglChooseConfig p (n - 1) = (True, min (n - 1) M)"
        using Suc.hyps(1) [of "n - 1"] Suc.hyps(2) n2 by simp
      ultimately show ?thesis using n2 False by (simp add: min_def)
    qed
  qed
qed

text \<open>
  C6, as stated: the effective sample count is the minimum of the requested count and the
  backend's maximum. It is not for a request of 0: with a maximum of 8 the count
  is 1, not 0.
\<close>

theorem SelectConfig_samples_counterexample:
  "snd (SelectConfig (egl_up_to 8)
         \<lparr>colorBits = 32, depthBits = 24, stencilBits = 8, samples = 0\<rparr>) = 1 \<and>
   min (0::int) 8 = 0"
  by (simp add: SelectConfig_def egl_up_to_def)

text \<open>
  C6, amended. For every requested sample count and every backend maximum \<open>M \<ge> 1\<close> (the
  EGL implementation has a configuration without multisampling and, for 2 or more samples,
  one exactly up to \<open>M\<close>), \<^verbatim>\<open>SelectConfig\<close> succeeds and the effective sample count is the
  minimum of the backend maximum and the requested count raised to at least 1.
\<close>

theorem SelectConfig_samples:
  assumes "1 \<le> M" and "eglChooseConfig (depthBits p) (stencilBits p) None"
    and "\<forall>k \<ge> 2. eglChooseConfig (depthBits p) (stencilBits p) (Some k) \<longleftrightarrow> k \<le> M"
  shows "SelectConfig eglChooseConfig p = (True, min (max 1 (samples p)) M)"
  using SelectConfig_loop_threshold [of M eglChooseConfig p "max 1 (samples p)"] assms
  by (simp add: SelectConfig_def)

text \<open>A request of 16 samples with a backend maximum of 8 gives 8.\<close>

theorem SelectConfig_samples_witness:
  "(1::int) \<le> 8 \<and> egl_up_to 8 24 8 None \<and>
   SelectConfig (egl_up_to 8)
     \<lparr>colorBits = 32, depthBits = 24, stencilBits = 8, samples = 16\<rparr> = (True, 8)"
  using SelectConfig_samples [of 8 "egl_up_to 8"
      "\<lparr>colorBits = 32, depthBits = 24, stencilBits = 8, samples = 16\<rparr>"]
  by (simp add: egl_up_to_def)

end
